theory Spec2Isabelle
  imports Complex_Main "HOL-Library.Log_Nat"
begin

section \<open>The trust meter of \<open>utm/trust_meter.py\<close>\<close>

text \<open>
  The meter is modelled twice. In the first model a Python float is a \<^typ>\<open>real\<close> and
  every arithmetic step of the source is exact; it carries the properties that do not
  depend on how a result is rounded: the range of the clamped trust, the betrayal
  counter, the error paths and the control flow of the strategies. The second model,
  further down, computes in IEEE double arithmetic with infinities and NaN, as CPython
  does; the properties that depend on rounding or overflow are stated on it. Python's
  unbounded \<open>int\<close> is \<^typ>\<open>int\<close>. A raised exception is a value of \<open>error\<close>.
  A method that mutates \<open>self\<close> takes the object and returns the outcome of the call
  together with the object as the call leaves it, so that what a raising call does to
  the state is part of the model.
\<close>

datatype error = ValueError | IndexError | OverflowError

subsection \<open>Reward table\<close>

text \<open>
  \<open>_REWARD_TABLE\<close> is a dictionary keyed by pairs of strings.
  \<open>payoff_to_signed_reward\<close> looks up \<open>(str(my_move), str(opp_move))\<close>; its arguments
  here are those two strings. A missing key (\<open>KeyError\<close>) is turned into \<open>ValueError\<close>.
\<close>

definition REWARD_TABLE :: "(string \<times> string) \<rightharpoonup> real" where
  "REWARD_TABLE = map_of
     [((''C'', ''C''), 1),
      ((''D'', ''C''), 1 / 2),
      ((''D'', ''D''), - (2 / 10)),
      ((''C'', ''D''), - 1)]"

definition payoff_to_signed_reward :: "string \<Rightarrow> string \<Rightarrow> error + real" where
  "payoff_to_signed_reward my_move opp_move =
     (case REWARD_TABLE (my_move, opp_move) of
        Some reward \<Rightarrow> Inr reward
      | None \<Rightarrow> Inl ValueError)"

subsection \<open>The dataclass and its lifecycle\<close>

text \<open>
  The fields \<open>_betrayals\<close> and \<open>_trust\<close> of the dataclass are \<open>u_betrayals\<close> and
  \<open>u_trust\<close> here (an identifier cannot start with an underscore).
\<close>

record TrustMeter =
  theta :: real
  alpha_pos :: real
  alpha_neg :: real
  delta :: real
  u_betrayals :: int
  u_trust :: real

text \<open>
  \<open>TrustMeter(theta, alpha_pos, alpha_neg, delta)\<close>: the generated \<open>__init__\<close> stores
  the four parameters as given and \<open>_betrayals = 0\<close>; \<open>__post_init__\<close> sets
  \<open>_trust = theta\<close>. Nothing is checked.
\<close>

definition new_TrustMeter :: "real \<Rightarrow> real \<Rightarrow> real \<Rightarrow> real \<Rightarrow> TrustMeter" where
  "new_TrustMeter th ap an d =
     \<lparr>theta = th, alpha_pos = ap, alpha_neg = an, delta = d,
      u_betrayals = 0, u_trust = th\<rparr>"

definition ALPHA_POS :: real where "ALPHA_POS = 5 / 100"
definition ALPHA_NEG :: real where "ALPHA_NEG = 50 / 100"
definition DELTA :: real where "DELTA = 30 / 100"

definition "value" :: "TrustMeter \<Rightarrow> real" where
  "value tm = u_trust tm"

definition reset :: "TrustMeter \<Rightarrow> TrustMeter" where
  "reset tm = tm\<lparr>u_trust := theta tm, u_betrayals := 0\<rparr>"

subsection \<open>The update rule\<close>

text \<open>
  The local variables of \<open>observe\<close>, each as a function of the object before the call
  and the arguments: \<open>alpha\<close> (line 181), the counter \<open>_betrayals\<close> after the
  conditional increment (lines 184-185), \<open>factor\<close> (line 187, which reads the counter
  after the increment) and \<open>delta_t\<close> (line 188).
\<close>

definition observe_alpha :: "TrustMeter \<Rightarrow> real \<Rightarrow> real" where
  "observe_alpha tm reward = (if reward > u_trust tm then alpha_pos tm else alpha_neg tm)"

definition observe_betrayals :: "TrustMeter \<Rightarrow> real \<Rightarrow> int" where
  "observe_betrayals tm reward =
     (if reward < u_trust tm then u_betrayals tm + 1 else u_betrayals tm)"

definition observe_factor :: "TrustMeter \<Rightarrow> real \<Rightarrow> real \<Rightarrow> real" where
  "observe_factor tm reward severity =
     severity * (1 + of_int (observe_betrayals tm reward) * delta tm)"

definition observe_delta_t :: "TrustMeter \<Rightarrow> real \<Rightarrow> real \<Rightarrow> real" where
  "observe_delta_t tm reward severity =
     observe_alpha tm reward * observe_factor tm reward severity * (reward - u_trust tm)"

text \<open>
  \<open>observe(reward, severity)\<close>: the check \<open>reward == 0\<close> raises before any field is
  assigned; otherwise the counter and the trust are stored.
\<close>

definition observe :: "TrustMeter \<Rightarrow> real \<Rightarrow> real \<Rightarrow> (error + unit) \<times> TrustMeter" where
  "observe tm reward severity =
     (if reward = 0 then (Inl ValueError, tm)
      else (Inr (),
            tm\<lparr>u_betrayals := observe_betrayals tm reward,
               u_trust := max 0 (min 1 (u_trust tm + observe_delta_t tm reward severity))\<rparr>))"

text \<open>
  A caller making successive \<open>observe\<close> calls on one meter, each call given as
  \<open>(reward, severity)\<close>; an exception ends the sequence, the object staying as the
  raising call left it.
\<close>

fun observe_calls :: "TrustMeter \<Rightarrow> (real \<times> real) list \<Rightarrow> (error + unit) \<times> TrustMeter" where
  "observe_calls tm [] = (Inr (), tm)"
| "observe_calls tm ((reward, severity) # calls) =
     (case observe tm reward severity of
        (Inl e, tm') \<Rightarrow> (Inl e, tm')
      | (Inr u, tm') \<Rightarrow> observe_calls tm' calls)"

section \<open>The gated strategies of \<open>strategies/\<close>\<close>

text \<open>
  The strategies subclass \<open>axl.Player\<close> of the Axelrod library, which is not part of
  this repository. What they use of it: the enum \<open>Action\<close> with members \<open>C\<close> and \<open>D\<close>
  whose \<open>str\<close> is the member's name; the player's \<open>history\<close>, the list of its own past
  moves, which the framework extends after each round (the strategies only read it);
  and the inner players \<open>axl.TitForTat()\<close> and \<open>axl.WinStayLoseShift()\<close>, of which only
  the class and the result of \<open>strategy(opponent)\<close> matter here. The inner player's
  decision is a parameter \<open>policy\<close> of the model: it maps the inner player's class and
  the opponent (given by its history) to a move.
\<close>

datatype Action = C | D

definition str :: "Action \<Rightarrow> string" where
  "str a = (case a of C \<Rightarrow> ''C'' | D \<Rightarrow> ''D'')"

datatype inner_player = TitForTat | WinStayLoseShift

type_synonym policy = "inner_player \<Rightarrow> Action list \<Rightarrow> Action"

text \<open>
  \<open>UTMTFT\<close> and \<open>UTMWSLS\<close> have the same attributes; \<open>UTMTFT_WSLS\<close> adds
  \<open>promote_at\<close>.
\<close>

record UTM_Player =
  history :: "Action list"
  trust :: TrustMeter
  threshold :: real
  inner :: inner_player

record UTMTFT_WSLS = UTM_Player +
  promote_at :: real

definition new_UTMTFT :: "real \<Rightarrow> real \<Rightarrow> real \<Rightarrow> real \<Rightarrow> real \<Rightarrow> UTM_Player" where
  "new_UTMTFT th ap an d thr =
     \<lparr>history = [], trust = new_TrustMeter th ap an d, threshold = thr, inner = TitForTat\<rparr>"

definition new_UTMWSLS :: "real \<Rightarrow> real \<Rightarrow> real \<Rightarrow> real \<Rightarrow> real \<Rightarrow> UTM_Player" where
  "new_UTMWSLS th ap an d thr =
     \<lparr>history = [], trust = new_TrustMeter th ap an d, threshold = thr,
      inner = WinStayLoseShift\<rparr>"

definition new_UTMTFT_WSLS :: "real \<Rightarrow> real \<Rightarrow> real \<Rightarrow> real \<Rightarrow> real \<Rightarrow> real \<Rightarrow> UTMTFT_WSLS" where
  "new_UTMTFT_WSLS th ap an d thr pr =
     \<lparr>history = [], trust = new_TrustMeter th ap an d, threshold = thr, inner = TitForTat,
      promote_at = pr\<rparr>"

text \<open>
  \<open>UTMTFT.strategy(opponent)\<close>. With a non-empty own history, \<open>opponent.history[-1]\<close>
  raises \<open>IndexError\<close> on an empty list; \<open>payoff_to_signed_reward\<close> gets the two last
  moves and applies \<open>str\<close> to them; \<open>observe\<close> is called with the default severity 1.0.
  An exception leaves the method at once. The logging calls have no effect on the
  state or the result.
\<close>

definition UTMTFT_strategy ::
  "policy \<Rightarrow> UTM_Player \<Rightarrow> Action list \<Rightarrow> (error + Action) \<times> UTM_Player" where
  "UTMTFT_strategy policy self opponent =
     (let (res, self1) =
        (if history self \<noteq> [] then
           (if opponent = [] then (Inl IndexError, self)
            else
              (case payoff_to_signed_reward (str (last (history self))) (str (last opponent)) of
                 Inl e \<Rightarrow> (Inl e, self)
               | Inr reward \<Rightarrow>
                   (case observe (trust self) reward 1 of
                      (r, tm) \<Rightarrow> (r, self\<lparr>trust := tm\<rparr>))))
         else (Inr (), self))
      in (case res of
            Inl e \<Rightarrow> (Inl e, self1)
          | Inr u \<Rightarrow>
              (let proposed_move = policy (inner self1) opponent;
                   current_trust = value (trust self1)
               in (Inr (if current_trust < threshold self1 then D else proposed_move), self1))))"

text \<open>\<open>UTMWSLS.strategy(opponent)\<close>.\<close>

definition UTMWSLS_strategy ::
  "policy \<Rightarrow> UTM_Player \<Rightarrow> Action list \<Rightarrow> (error + Action) \<times> UTM_Player" where
  "UTMWSLS_strategy policy self opponent =
     (let (res, self1) =
        (if history self \<noteq> [] then
           (if opponent = [] then (Inl IndexError, self)
            else
              (case payoff_to_signed_reward (str (last (history self))) (str (last opponent)) of
                 Inl e \<Rightarrow> (Inl e, self)
               | Inr reward \<Rightarrow>
                   (case observe (trust self) reward 1 of
                      (r, tm) \<Rightarrow> (r, self\<lparr>trust := tm\<rparr>))))
         else (Inr (), self))
      in (case res of
            Inl e \<Rightarrow> (Inl e, self1)
          | Inr u \<Rightarrow>
              (let proposed = policy (inner self1) opponent
               in (Inr (if value (trust self1) < threshold self1 then D else proposed), self1))))"

text \<open>
  \<open>UTMTFT_WSLS.strategy(opponent)\<close>: after the update, the inner player is replaced by
  a \<open>WinStayLoseShift\<close> when the trust is above \<open>promote_at\<close> and the inner player is
  not one already.
\<close>

definition UTMTFT_WSLS_strategy ::
  "policy \<Rightarrow> UTMTFT_WSLS \<Rightarrow> Action list \<Rightarrow> (error + Action) \<times> UTMTFT_WSLS" where
  "UTMTFT_WSLS_strategy policy self opponent =
     (let (res, self1) =
        (if history self \<noteq> [] then
           (if opponent = [] then (Inl IndexError, self)
            else
              (case payoff_to_signed_reward (str (last (history self))) (str (last opponent)) of
                 Inl e \<Rightarrow> (Inl e, self)
               | Inr r \<Rightarrow>
                   (case observe (trust self) r 1 of
                      (res, tm) \<Rightarrow> (res, self\<lparr>trust := tm\<rparr>))))
         else (Inr (), self))
      in (case res of
            Inl e \<Rightarrow> (Inl e, self1)
          | Inr u \<Rightarrow>
              (let self2 =
                     (if value (trust self1) > promote_at self1 \<and> inner self1 \<noteq> WinStayLoseShift
                      then self1\<lparr>inner := WinStayLoseShift\<rparr> else self1);
                   move = policy (inner self2) opponent
               in (Inr (if value (trust self2) < threshold self2 then D else move), self2))))"

text \<open>
  \<open>UTMTFT_WSLS.reset()\<close>: \<open>super().reset()\<close> is the framework's and empties the
  history; then the meter is reset and the inner player is a new \<open>TitForTat\<close>.
\<close>

definition UTMTFT_WSLS_reset :: "UTMTFT_WSLS \<Rightarrow> UTMTFT_WSLS" where
  "UTMTFT_WSLS_reset self = self\<lparr>history := [], trust := reset (trust self), inner := TitForTat\<rparr>"

text \<open>
  A match as the hybrid sees it, with no reset: a sequence of \<open>strategy\<close> calls, each
  given as the own history the framework has recorded by then and the opponent's
  history. The result is the list of the player's states after each call; an
  exception ends the match.
\<close>

fun strategy_calls :: "policy \<Rightarrow> UTMTFT_WSLS \<Rightarrow> (Action list \<times> Action list) list \<Rightarrow> UTMTFT_WSLS list" where
  "strategy_calls policy self [] = []"
| "strategy_calls policy self ((h, opponent) # rounds) =
     (case UTMTFT_WSLS_strategy policy (self\<lparr>history := h\<rparr>) opponent of
        (Inl e, self') \<Rightarrow> []
      | (Inr m, self') \<Rightarrow> self' # strategy_calls policy self' rounds)"

section \<open>The update rule in IEEE double arithmetic\<close>

text \<open>
  The second model of \<open>TrustMeter.observe\<close> computes as CPython does. A Python float
  is an IEEE 754 binary64 value: a finite number, an infinity or NaN. The two zeros
  are one value here: they compare equal, and no operation of the source (there is no
  division) tells them apart.
\<close>

datatype pyfloat = Fin real | PInf | NInf | NaN

subsection \<open>Rounding to nearest, ties to even\<close>

text \<open>
  \<open>round_even\<close> rounds a real to the nearest integer, a tie going to the even one.
  The finite doubles are the numbers \<open>m * 2 ^ e\<close> with \<open>\<bar>m\<bar> < 2 ^ 53\<close> and
  \<open>-1074 \<le> e \<le> 971\<close>. \<open>ulp_exponent x\<close> is the exponent \<open>e\<close> of the grid
  around \<open>x\<close>: for \<open>2 ^ k \<le> \<bar>x\<bar> < 2 ^ (k + 1)\<close> it is \<open>k - 52\<close>, and \<open>-1074\<close> in the
  subnormal range \<open>\<bar>x\<bar> < 2 ^ -1022\<close> (\<open>bitlen n\<close> is the number of binary digits of
  \<open>n\<close>). \<open>round_grid\<close> rounds to that grid with no bound on the exponent, and
  \<open>round_double\<close> is the result of an arithmetic operation whose exact value is \<open>x\<close>:
  the rounded value, or an infinity when that reaches \<open>2 ^ 1024\<close> in magnitude.
\<close>

definition round_even :: "real \<Rightarrow> int" where
  "round_even y =
     (let f = \<lfloor>y\<rfloor> in
      if y - of_int f < 1 / 2 then f
      else if 1 / 2 < y - of_int f then f + 1
      else if even f then f else f + 1)"

definition ulp_exponent :: "real \<Rightarrow> int" where
  "ulp_exponent x = max (bitlen \<lfloor>\<bar>x\<bar> * 2 ^ 1074\<rfloor>) 53 - 1127"

definition round_grid :: "real \<Rightarrow> real" where
  "round_grid x =
     of_int (round_even (x / 2 powi ulp_exponent x)) * 2 powi ulp_exponent x"

definition round_double :: "real \<Rightarrow> pyfloat" where
  "round_double x =
     (let v = round_grid x in
      if 2 powi 1024 \<le> v then PInf
      else if v \<le> - (2 powi 1024) then NInf
      else Fin v)"

subsection \<open>Float operations of Python\<close>

text \<open>
  Unary minus, \<open>+\<close>, \<open>-\<close> and \<open>*\<close> on floats: the exact result rounded, with the
  IEEE rules for infinities and NaN (\<open>inf - inf\<close> and \<open>0 * inf\<close> are NaN). None of
  them raises. \<open>flt\<close> is \<open><\<close> (\<open>a > b\<close> is \<open>flt b a\<close>) and \<open>feq\<close> is \<open>==\<close>: every
  comparison with NaN is false.
\<close>

fun fneg :: "pyfloat \<Rightarrow> pyfloat" where
  "fneg (Fin x) = Fin (- x)"
| "fneg PInf = NInf"
| "fneg NInf = PInf"
| "fneg NaN = NaN"

fun fadd :: "pyfloat \<Rightarrow> pyfloat \<Rightarrow> pyfloat" where
  "fadd (Fin x) (Fin y) = round_double (x + y)"
| "fadd NaN b = NaN"
| "fadd a NaN = NaN"
| "fadd PInf NInf = NaN"
| "fadd NInf PInf = NaN"
| "fadd PInf b = PInf"
| "fadd a PInf = PInf"
| "fadd NInf b = NInf"
| "fadd a NInf = NInf"

definition fsub :: "pyfloat \<Rightarrow> pyfloat \<Rightarrow> pyfloat" where
  "fsub a b = fadd a (fneg b)"

fun fmul :: "pyfloat \<Rightarrow> pyfloat \<Rightarrow> pyfloat" where
  "fmul (Fin x) (Fin y) = round_double (x * y)"
| "fmul NaN b = NaN"
| "fmul a NaN = NaN"
| "fmul (Fin x) PInf = (if x = 0 then NaN else if 0 < x then PInf else NInf)"
| "fmul (Fin x) NInf = (if x = 0 then NaN else if 0 < x then NInf else PInf)"
| "fmul PInf (Fin y) = (if y = 0 then NaN else if 0 < y then PInf else NInf)"
| "fmul NInf (Fin y) = (if y = 0 then NaN else if 0 < y then NInf else PInf)"
| "fmul PInf PInf = PInf"
| "fmul PInf NInf = NInf"
| "fmul NInf PInf = NInf"
| "fmul NInf NInf = PInf"

fun flt :: "pyfloat \<Rightarrow> pyfloat \<Rightarrow> bool" where
  "flt (Fin x) (Fin y) = (x < y)"
| "flt NaN b = False"
| "flt a NaN = False"
| "flt NInf NInf = False"
| "flt NInf b = True"
| "flt a NInf = False"
| "flt PInf b = False"
| "flt a PInf = True"

fun feq :: "pyfloat \<Rightarrow> pyfloat \<Rightarrow> bool" where
  "feq (Fin x) (Fin y) = (x = y)"
| "feq PInf PInf = True"
| "feq NInf NInf = True"
| "feq a b = False"

fun isfinite :: "pyfloat \<Rightarrow> bool" where
  "isfinite (Fin x) = True"
| "isfinite a = False"

text \<open>
  The builtins \<open>min(a, b)\<close> and \<open>max(a, b)\<close> keep the first argument unless the second
  is smaller (for \<open>min\<close>) or greater (for \<open>max\<close>), so a NaN in second place is dropped.
\<close>

definition pymin :: "pyfloat \<Rightarrow> pyfloat \<Rightarrow> pyfloat" where
  "pymin a b = (if flt b a then b else a)"

definition pymax :: "pyfloat \<Rightarrow> pyfloat \<Rightarrow> pyfloat" where
  "pymax a b = (if flt a b then b else a)"

text \<open>
  In \<open>int * float\<close> the integer is converted to the nearest double first; an integer
  too large for a double makes the conversion raise \<open>OverflowError\<close>, which is the
  case in which \<open>int_to_double\<close> is not finite.
\<close>

definition int_to_double :: "int \<Rightarrow> pyfloat" where
  "int_to_double n = round_double (of_int n)"

subsection \<open>The meter with float fields\<close>

text \<open>
  The dataclass again, its float fields now of type \<open>pyfloat\<close>. The generated
  \<open>__init__\<close> takes the four parameters and also \<open>_betrayals\<close> (default 0) and
  \<open>_trust\<close>; \<open>__post_init__\<close> overwrites \<open>_trust\<close> with \<open>theta\<close>, so
  \<open>new_TrustMeter_d\<close> has no argument for it. A float literal of the source denotes the
  double nearest to it.
\<close>

record TrustMeter_d =
  d_theta :: pyfloat
  d_alpha_pos :: pyfloat
  d_alpha_neg :: pyfloat
  d_delta :: pyfloat
  d_betrayals :: int
  d_trust :: pyfloat

definition new_TrustMeter_d ::
  "pyfloat \<Rightarrow> pyfloat \<Rightarrow> pyfloat \<Rightarrow> pyfloat \<Rightarrow> int \<Rightarrow> TrustMeter_d" where
  "new_TrustMeter_d th ap an d b =
     \<lparr>d_theta = th, d_alpha_pos = ap, d_alpha_neg = an, d_delta = d,
      d_betrayals = b, d_trust = th\<rparr>"

definition ALPHA_POS_d :: pyfloat where "ALPHA_POS_d = round_double (5 / 100)"
definition ALPHA_NEG_d :: pyfloat where "ALPHA_NEG_d = round_double (50 / 100)"
definition DELTA_d :: pyfloat where "DELTA_d = round_double (30 / 100)"

text \<open>
  The local values of \<open>observe\<close> as functions of the object before the call and the
  arguments: \<open>alpha\<close> (line 181), the counter after the conditional increment (lines
  184-185), the subexpression \<open>1 + self._betrayals * self.delta\<close> of line 187,
  \<open>factor\<close> (line 187) and \<open>delta_t\<close> (line 188, which multiplies \<open>alpha * factor\<close>
  first).
\<close>

definition observe_d_alpha :: "TrustMeter_d \<Rightarrow> pyfloat \<Rightarrow> pyfloat" where
  "observe_d_alpha tm reward =
     (if flt (d_trust tm) reward then d_alpha_pos tm else d_alpha_neg tm)"

definition observe_d_betrayals :: "TrustMeter_d \<Rightarrow> pyfloat \<Rightarrow> int" where
  "observe_d_betrayals tm reward =
     (if flt reward (d_trust tm) then d_betrayals tm + 1 else d_betrayals tm)"

definition observe_d_ramp :: "TrustMeter_d \<Rightarrow> pyfloat \<Rightarrow> pyfloat" where
  "observe_d_ramp tm reward =
     fadd (Fin 1) (fmul (int_to_double (observe_d_betrayals tm reward)) (d_delta tm))"

definition observe_d_factor :: "TrustMeter_d \<Rightarrow> pyfloat \<Rightarrow> pyfloat \<Rightarrow> pyfloat" where
  "observe_d_factor tm reward severity = fmul severity (observe_d_ramp tm reward)"

definition observe_d_delta_t :: "TrustMeter_d \<Rightarrow> pyfloat \<Rightarrow> pyfloat \<Rightarrow> pyfloat" where
  "observe_d_delta_t tm reward severity =
     fmul (fmul (observe_d_alpha tm reward) (observe_d_factor tm reward severity))
          (fsub reward (d_trust tm))"

text \<open>
  \<open>observe(reward, severity)\<close> on floats. \<open>reward == 0\<close> raises before anything is
  assigned. The counter is stored at line 185, before line 187 converts it: when the
  conversion raises, the new counter stays and the trust is untouched. Otherwise the
  trust is stored as \<open>max(0.0, min(1.0, self._trust + delta_t))\<close>.
\<close>

definition observe_d ::
  "TrustMeter_d \<Rightarrow> pyfloat \<Rightarrow> pyfloat \<Rightarrow> (error + unit) \<times> TrustMeter_d" where
  "observe_d tm reward severity =
     (if feq reward (Fin 0) then (Inl ValueError, tm)
      else if \<not> isfinite (int_to_double (observe_d_betrayals tm reward))
      then (Inl OverflowError, tm\<lparr>d_betrayals := observe_d_betrayals tm reward\<rparr>)
      else (Inr (),
            tm\<lparr>d_betrayals := observe_d_betrayals tm reward,
               d_trust := pymax (Fin 0) (pymin (Fin 1)
                  (fadd (d_trust tm) (observe_d_delta_t tm reward severity)))\<rparr>))"

text \<open>
  Two predicates for the proofs: a float that is not NaN and is at least (at most) a
  given real, \<open>+inf\<close> (\<open>-inf\<close>) included.
\<close>

definition at_least :: "real \<Rightarrow> pyfloat \<Rightarrow> bool" where
  "at_least c a = (case a of Fin v \<Rightarrow> c \<le> v | PInf \<Rightarrow> True | NInf \<Rightarrow> False | NaN \<Rightarrow> False)"

definition at_most :: "real \<Rightarrow> pyfloat \<Rightarrow> bool" where
  "at_most c a = (case a of Fin v \<Rightarrow> v \<le> c | PInf \<Rightarrow> False | NInf \<Rightarrow> True | NaN \<Rightarrow> False)"

section \<open>Properties of the trust meter\<close>

lemma observe_ok:
  "reward \<noteq> 0 \<Longrightarrow> fst (observe tm reward severity) = Inr ()"
  by (simp add: observe_def)

lemma observe_trust_bounds:
  "reward \<noteq> 0 \<Longrightarrow>
     0 \<le> u_trust (snd (observe tm reward severity)) \<and>
     u_trust (snd (observe tm reward severity)) \<le> 1"
  by (simp add: observe_def)

lemma observe_calls_bounds:
  "0 \<le> u_trust tm \<Longrightarrow> u_trust tm \<le> 1 \<Longrightarrow> \<forall>c \<in> set calls. fst c \<noteq> 0 \<Longrightarrow>
     fst (observe_calls tm calls) = Inr () \<and>
     0 \<le> u_trust (snd (observe_calls tm calls)) \<and>
     u_trust (snd (observe_calls tm calls)) \<le> 1"
proof (induction calls arbitrary: tm)
  case Nil
  then show ?case by simp
next
  case (Cons c calls)
  obtain reward severity where c: "c = (reward, severity)" by (cases c)
  from Cons.prems(3) c have nz: "reward \<noteq> 0" by simp
  obtain tm' where step: "observe tm reward severity = (Inr (), tm')"
    using observe_ok [OF nz, of tm severity] by (cases "observe tm reward severity") auto
  from observe_trust_bounds [OF nz, of tm severity] step
  have b: "0 \<le> u_trust tm'" "u_trust tm' \<le> 1" by simp_all
  from Cons.prems(3) have rest: "\<forall>c \<in> set calls. fst c \<noteq> 0" by simp
  from Cons.IH [OF b rest] show ?case by (simp add: c step)
qed

subsection \<open>Boundedness\<close>

text \<open>
  C1. For a meter constructed with \<open>theta\<close> in \<open>[0, 1]\<close> and any finite sequence of
  \<open>observe\<close> calls whose rewards are all non-zero (any severities), every call
  returns normally and after every call (after each prefix of the sequence)
  \<open>value\<close> lies in the closed interval \<open>[0, 1]\<close>.
\<close>

theorem trust_bounded_after_every_call:
  assumes "0 \<le> th" and "th \<le> 1"
    and "\<forall>c \<in> set calls. fst c \<noteq> 0"
    and "k \<le> length calls"
  shows "fst (observe_calls (new_TrustMeter th ap an d) (take k calls)) = Inr () \<and>
         0 \<le> value (snd (observe_calls (new_TrustMeter th ap an d) (take k calls))) \<and>
         value (snd (observe_calls (new_TrustMeter th ap an d) (take k calls))) \<le> 1"
proof -
  have init: "0 \<le> u_trust (new_TrustMeter th ap an d)" "u_trust (new_TrustMeter th ap an d) \<le> 1"
    using assms(1,2) by (simp_all add: new_TrustMeter_def)
  have "set (take k calls) \<subseteq> set calls" by (rule set_take_subset)
  with assms(3) have nz: "\<forall>c \<in> set (take k calls). fst c \<noteq> 0" by blast
  from observe_calls_bounds [OF init nz] show ?thesis by (simp add: value_def)
qed

theorem trust_bounded_after_every_call_witness:
  "fst (observe_calls (new_TrustMeter (1 / 2) ALPHA_POS ALPHA_NEG DELTA)
          (take 2 [(- 1, 1), (1, - 3), (1 / 2, 7)])) = Inr () \<and>
   0 \<le> value (snd (observe_calls (new_TrustMeter (1 / 2) ALPHA_POS ALPHA_NEG DELTA)
          (take 2 [(- 1, 1), (1, - 3), (1 / 2, 7)]))) \<and>
   value (snd (observe_calls (new_TrustMeter (1 / 2) ALPHA_POS ALPHA_NEG DELTA)
          (take 2 [(- 1, 1), (1, - 3), (1 / 2, 7)]))) \<le> 1"
  using trust_bounded_after_every_call
    [of "1 / 2" "[(- 1, 1), (1, - 3), (1 / 2, 7)]" 2 ALPHA_POS ALPHA_NEG DELTA]
  by simp

subsection \<open>Zero reward\<close>

text \<open>
  C4. In every state and for every severity, \<open>observe(0.0, severity)\<close> raises
  \<open>ValueError\<close> (the spec's InvalidArgument) and leaves the object as it was: in
  particular the trust and the betrayal counter are those of before the call.
\<close>

theorem observe_zero_reward_rejected:
  "fst (observe tm 0 severity) = Inl ValueError \<and>
   snd (observe tm 0 severity) = tm \<and>
   u_trust (snd (observe tm 0 severity)) = u_trust tm \<and>
   u_betrayals (snd (observe tm 0 severity)) = u_betrayals tm"
  by (simp add: observe_def)

subsection \<open>Reward table\<close>

text \<open>
  C6. \<open>payoff_to_signed_reward\<close> returns 1.0 for (C, C), 0.5 for (D, C), -0.2 for
  (D, D) and -1.0 for (C, D); for every other pair of strings it raises
  \<open>ValueError\<close> (the spec's InvalidArgument).
\<close>

theorem reward_table_exact:
  "payoff_to_signed_reward ''C'' ''C'' = Inr 1 \<and>
   payoff_to_signed_reward ''D'' ''C'' = Inr (1 / 2) \<and>
   payoff_to_signed_reward ''D'' ''D'' = Inr (- (2 / 10)) \<and>
   payoff_to_signed_reward ''C'' ''D'' = Inr (- 1) \<and>
   ((my_move, opp_move) \<notin> {(''C'', ''C''), (''D'', ''C''), (''D'', ''D''), (''C'', ''D'')} \<longrightarrow>
      payoff_to_signed_reward my_move opp_move = Inl ValueError)"
  by (simp add: payoff_to_signed_reward_def REWARD_TABLE_def)

theorem reward_table_exact_witness:
  "(''c'', ''D'') \<notin> {(''C'', ''C''), (''D'', ''C''), (''D'', ''D''), (''C'', ''D'')} \<and>
   payoff_to_signed_reward ''c'' ''D'' = Inl ValueError"
  using reward_table_exact [of "''c''" "''D''"] by simp

subsection \<open>Unchecked construction\<close>

text \<open>
  C10. The constructor checks nothing: \<open>value\<close> of a fresh meter is \<open>theta\<close> as given,
  so with \<open>theta\<close> outside \<open>[0, 1]\<close> the trust is outside \<open>[0, 1]\<close> before the first
  update. After one \<open>observe\<close> call that returns normally (non-zero reward) the trust
  lies in \<open>[0, 1]\<close>, whatever \<open>theta\<close> was.
\<close>

theorem construction_unchecked_then_clamped:
  "value (new_TrustMeter th ap an d) = th \<and>
   (th < 0 \<or> 1 < th \<longrightarrow>
      \<not> (0 \<le> value (new_TrustMeter th ap an d) \<and> value (new_TrustMeter th ap an d) \<le> 1)) \<and>
   (reward \<noteq> 0 \<longrightarrow>
      fst (observe (new_TrustMeter th ap an d) reward severity) = Inr () \<and>
      0 \<le> value (snd (observe (new_TrustMeter th ap an d) reward severity)) \<and>
      value (snd (observe (new_TrustMeter th ap an d) reward severity)) \<le> 1)"
  by (simp add: observe_def value_def new_TrustMeter_def)

theorem construction_unchecked_then_clamped_witness:
  "value (new_TrustMeter (3 / 2) ALPHA_POS ALPHA_NEG DELTA) = 3 / 2 \<and>
   ((3 / 2 :: real) < 0 \<or> (1 :: real) < 3 / 2) \<and>
   \<not> (0 \<le> value (new_TrustMeter (3 / 2) ALPHA_POS ALPHA_NEG DELTA) \<and>
       value (new_TrustMeter (3 / 2) ALPHA_POS ALPHA_NEG DELTA) \<le> 1) \<and>
   (1 :: real) \<noteq> 0 \<and>
   fst (observe (new_TrustMeter (3 / 2) ALPHA_POS ALPHA_NEG DELTA) 1 1) = Inr () \<and>
   0 \<le> value (snd (observe (new_TrustMeter (3 / 2) ALPHA_POS ALPHA_NEG DELTA) 1 1)) \<and>
   value (snd (observe (new_TrustMeter (3 / 2) ALPHA_POS ALPHA_NEG DELTA) 1 1)) \<le> 1"
  using construction_unchecked_then_clamped [of "3 / 2" ALPHA_POS ALPHA_NEG DELTA 1 1]
  by simp

subsection \<open>Betrayal counter\<close>

lemma observe_betrayals_mono:
  "u_betrayals tm \<le> u_betrayals (snd (observe tm reward severity))"
  by (simp add: observe_def observe_betrayals_def)

lemma observe_calls_betrayals_mono:
  "u_betrayals tm \<le> u_betrayals (snd (observe_calls tm calls))"
proof (induction calls arbitrary: tm)
  case Nil
  then show ?case by simp
next
  case (Cons c calls)
  obtain reward severity where c: "c = (reward, severity)" by (cases c)
  obtain res tm' where step: "observe tm reward severity = (res, tm')"
    by (cases "observe tm reward severity")
  from observe_betrayals_mono [of tm reward severity] step
  have le: "u_betrayals tm \<le> u_betrayals tm'" by simp
  show ?case
  proof (cases res)
    case (Inl e)
    with le show ?thesis by (simp add: c step)
  next
    case (Inr u)
    from Cons.IH [of tm'] le have "u_betrayals tm \<le> u_betrayals (snd (observe_calls tm' calls))"
      by linarith
    with Inr show ?thesis by (simp add: c step)
  qed
qed

text \<open>
  C7. The betrayal counter is 0 right after \<open>reset\<close>; over any sequence of
  \<open>observe\<close> calls (no reset in between) it never decreases; an \<open>observe\<close> call that
  returns normally adds exactly 1 when the reward is strictly below the trust of
  before the call and leaves the counter as it was otherwise; and the increment comes
  before the factor: in a call that counts a betrayal, the new trust is computed with
  the factor \<open>severity * (1 + (n + 1) * delta)\<close>, \<open>n\<close> the counter of before the call.
\<close>

theorem betrayal_counter_bookkeeping:
  "u_betrayals (reset tm) = 0 \<and>
   u_betrayals tm \<le> u_betrayals (snd (observe_calls tm calls)) \<and>
   (reward \<noteq> 0 \<longrightarrow>
      fst (observe tm reward severity) = Inr () \<and>
      u_betrayals (snd (observe tm reward severity)) =
        (if reward < u_trust tm then u_betrayals tm + 1 else u_betrayals tm) \<and>
      (reward < u_trust tm \<longrightarrow>
         u_trust (snd (observe tm reward severity)) =
           max 0 (min 1 (u_trust tm +
             alpha_neg tm * (severity * (1 + of_int (u_betrayals tm + 1) * delta tm)) *
               (reward - u_trust tm)))))"
proof -
  have "u_betrayals (reset tm) = 0" by (simp add: reset_def)
  moreover have "u_betrayals tm \<le> u_betrayals (snd (observe_calls tm calls))"
    by (rule observe_calls_betrayals_mono)
  moreover have "reward \<noteq> 0 \<longrightarrow>
      fst (observe tm reward severity) = Inr () \<and>
      u_betrayals (snd (observe tm reward severity)) =
        (if reward < u_trust tm then u_betrayals tm + 1 else u_betrayals tm) \<and>
      (reward < u_trust tm \<longrightarrow>
         u_trust (snd (observe tm reward severity)) =
           max 0 (min 1 (u_trust tm +
             alpha_neg tm * (severity * (1 + of_int (u_betrayals tm + 1) * delta tm)) *
               (reward - u_trust tm))))"
    by (simp add: observe_def observe_betrayals_def observe_delta_t_def observe_factor_def
        observe_alpha_def)
  ultimately show ?thesis by blast
qed

theorem betrayal_counter_bookkeeping_witness:
  "u_betrayals (reset (new_TrustMeter (1 / 2) ALPHA_POS ALPHA_NEG DELTA)) = 0 \<and>
   u_betrayals (new_TrustMeter (1 / 2) ALPHA_POS ALPHA_NEG DELTA) \<le>
     u_betrayals (snd (observe_calls (new_TrustMeter (1 / 2) ALPHA_POS ALPHA_NEG DELTA)
        [(- 1, 1), (1, 1)])) \<and>
   (- (2 / 10) :: real) \<noteq> 0 \<and>
   - (2 / 10) < u_trust (new_TrustMeter (1 / 2) ALPHA_POS ALPHA_NEG DELTA) \<and>
   fst (observe (new_TrustMeter (1 / 2) ALPHA_POS ALPHA_NEG DELTA) (- (2 / 10)) 1) = Inr () \<and>
   u_betrayals (snd (observe (new_TrustMeter (1 / 2) ALPHA_POS ALPHA_NEG DELTA) (- (2 / 10)) 1)) = 1 \<and>
   u_trust (snd (observe (new_TrustMeter (1 / 2) ALPHA_POS ALPHA_NEG DELTA) (- (2 / 10)) 1)) = 9 / 200"
  using betrayal_counter_bookkeeping
    [of "new_TrustMeter (1 / 2) ALPHA_POS ALPHA_NEG DELTA" "[(- 1, 1), (1, 1)]" "- (2 / 10)" 1]
  by (simp add: new_TrustMeter_def ALPHA_NEG_def DELTA_def)

section \<open>Properties of rounding to double\<close>

lemma round_even_of_int [simp]: "round_even (of_int m) = m"
  by (simp add: round_even_def)

lemma round_even_mono: "a \<le> b \<Longrightarrow> round_even a \<le> round_even b"
proof -
  assume ab: "a \<le> b"
  then have f: "\<lfloor>a\<rfloor> \<le> \<lfloor>b\<rfloor>" by (rule floor_mono)
  have la: "round_even a \<le> \<lfloor>a\<rfloor> + 1" "\<lfloor>a\<rfloor> \<le> round_even a"
    by (simp_all add: round_even_def Let_def)
  have lb: "\<lfloor>b\<rfloor> \<le> round_even b"
    by (simp add: round_even_def Let_def)
  show ?thesis
  proof (cases "\<lfloor>a\<rfloor> < \<lfloor>b\<rfloor>")
    case True
    with la lb show ?thesis by linarith
  next
    case False
    with f have eq: "\<lfloor>a\<rfloor> = \<lfloor>b\<rfloor>" by simp
    with ab show ?thesis by (auto simp: round_even_def Let_def)
  qed
qed

lemma round_even_minus: "round_even (- y) = - round_even y"
proof (cases "y = of_int \<lfloor>y\<rfloor>")
  case True
  then obtain m where "y = of_int m" ..
  then show ?thesis by (simp flip: of_int_minus)
next
  case False
  then have c: "\<lceil>y\<rceil> = \<lfloor>y\<rfloor> + 1"
    by (simp add: ceiling_altdef)
  have fl: "\<lfloor>- y\<rfloor> = - \<lfloor>y\<rfloor> - 1"
    using c by (simp add: floor_minus)
  show ?thesis
    unfolding round_even_def Let_def fl
    by (auto simp: algebra_simps)
qed

lemma ulp_exponent_minus [simp]: "ulp_exponent (- x) = ulp_exponent x"
  by (simp add: ulp_exponent_def)

lemma ulp_exponent_ge: "- 1074 \<le> ulp_exponent x"
  by (simp add: ulp_exponent_def)

lemma bitlen_mono: "a \<le> b \<Longrightarrow> bitlen a \<le> bitlen b"
  by (simp add: bitlen_def floorlog_mono)

lemma ulp_exponent_mono:
  assumes "\<bar>x\<bar> \<le> \<bar>y\<bar>"
  shows "ulp_exponent x \<le> ulp_exponent y"
proof -
  from assms have "\<bar>x\<bar> * 2 ^ 1074 \<le> \<bar>y\<bar> * 2 ^ 1074" by simp
  then have "\<lfloor>\<bar>x\<bar> * 2 ^ 1074\<rfloor> \<le> \<lfloor>\<bar>y\<bar> * 2 ^ 1074\<rfloor>" by (rule floor_mono)
  then have "bitlen \<lfloor>\<bar>x\<bar> * 2 ^ 1074\<rfloor> \<le> bitlen \<lfloor>\<bar>y\<bar> * 2 ^ 1074\<rfloor>" by (rule bitlen_mono)
  then show ?thesis by (simp add: ulp_exponent_def)
qed

lemma two_powi_pos [simp]: "0 < (2::real) powi e"
  by (simp add: power_int_def)

lemma two_powi_shift_nat: "(2::real) powi (e - int k) * 2 ^ k = 2 powi e"
proof -
  have "(2::real) powi (e - int k + int k) = 2 powi (e - int k) * 2 powi (int k)"
    by (rule power_int_add) simp
  then show ?thesis by simp
qed

lemma two_powi_shift: "(2::real) powi (e - 1074) * 2 ^ 1074 = 2 powi e"
  using two_powi_shift_nat [of e 1074] by (simp only: of_nat_numeral)

lemma ulp_exponent_upper: "\<bar>x\<bar> < 2 powi (ulp_exponent x + 53)"
proof -
  define N where "N = \<lfloor>\<bar>x\<bar> * 2 ^ 1074\<rfloor>"
  define B where "B = max (bitlen N) 53"
  have e: "ulp_exponent x = B - 1127" by (simp add: ulp_exponent_def B_def N_def)
  have B0: "0 \<le> B" by (simp add: B_def)
  have "bitlen N \<le> B" by (simp add: B_def)
  then have "N < 2 ^ nat B" by (simp add: bitlen_le_iff_power)
  then have "\<bar>x\<bar> * 2 ^ 1074 < of_int (2 ^ nat B)"
    unfolding N_def by (simp only: floor_less_iff)
  also have "of_int (2 ^ nat B) = (2::real) powi B"
    using B0 by (simp add: power_int_def)
  also have "\<dots> = 2 powi (B - 1074) * 2 ^ 1074" by (rule two_powi_shift [symmetric])
  finally have "\<bar>x\<bar> < 2 powi (B - 1074)" by simp
  then show ?thesis by (simp add: e)
qed

lemma ulp_exponent_lower:
  assumes "- 1074 < ulp_exponent x"
  shows "2 powi (ulp_exponent x + 52) \<le> \<bar>x\<bar>"
proof -
  define N where "N = \<lfloor>\<bar>x\<bar> * 2 ^ 1074\<rfloor>"
  define b where "b = bitlen N"
  have e: "ulp_exponent x = max b 53 - 1127" by (simp add: ulp_exponent_def b_def N_def)
  with assms have b: "53 < b" by (simp add: max_def split: if_splits)
  then have "1 \<le> b \<and> (b \<le> 0 \<or> 2 ^ (nat b - 1) \<le> N)"
    using bitlen_ge_iff_power [of b N] by (simp add: b_def)
  with b have "2 ^ (nat b - 1) \<le> N" by simp
  then have "of_int (2 ^ (nat b - 1)) \<le> \<bar>x\<bar> * 2 ^ 1074"
    unfolding N_def by (simp only: le_floor_iff)
  moreover have "of_int (2 ^ (nat b - 1)) = (2::real) powi (b - 1)"
    using b by (simp add: power_int_def nat_diff_distrib')
  moreover have "(2::real) powi (b - 1) = 2 powi (b - 1 - 1074) * 2 ^ 1074"
    by (rule two_powi_shift [symmetric])
  ultimately have l: "2 powi (b - 1 - 1074) \<le> \<bar>x\<bar>" by simp
  have "ulp_exponent x + 52 = b - 1 - 1074" using e b by simp
  then show ?thesis using l by (simp only:)
qed

lemma round_grid_minus: "round_grid (- x) = - round_grid x"
  by (simp add: round_grid_def round_even_minus)

lemma round_even_zero [simp]: "round_even 0 = 0"
  using round_even_of_int [of 0] by simp

lemma round_grid_zero [simp]: "round_grid 0 = 0"
  by (simp add: round_grid_def)

lemma round_grid_upper:
  assumes "0 \<le> x"
  shows "round_grid x \<le> 2 powi (ulp_exponent x + 53)"
proof -
  let ?e = "ulp_exponent x"
  have split: "(2::real) powi (?e + 53) = 2 powi 53 * 2 powi ?e"
    by (simp add: power_int_add mult.commute)
  from ulp_exponent_upper [of x] assms have "x < 2 powi 53 * 2 powi ?e"
    by (simp only: split abs_of_nonneg)
  then have "x / 2 powi ?e < 2 powi 53"
    by (simp add: pos_divide_less_eq)
  then have "x / 2 powi ?e \<le> of_int (2 ^ 53)" by simp
  then have "round_even (x / 2 powi ?e) \<le> round_even (of_int (2 ^ 53))"
    by (rule round_even_mono)
  then have "round_even (x / 2 powi ?e) \<le> 2 ^ 53" by (simp only: round_even_of_int)
  then have "(of_int (round_even (x / 2 powi ?e)) :: real) \<le> of_int (2 ^ 53)"
    by (simp only: of_int_le_iff)
  then have "of_int (round_even (x / 2 powi ?e)) * 2 powi ?e \<le> (of_int (2 ^ 53) :: real) * 2 powi ?e"
    by (rule mult_right_mono) simp
  then show ?thesis by (simp add: round_grid_def split)
qed

lemma round_grid_lower:
  assumes "0 \<le> x" and "- 1074 < ulp_exponent x"
  shows "2 powi (ulp_exponent x + 52) \<le> round_grid x"
proof -
  let ?e = "ulp_exponent x"
  have split: "(2::real) powi (?e + 52) = 2 powi 52 * 2 powi ?e"
    by (simp add: power_int_add mult.commute)
  from ulp_exponent_lower [OF assms(2)] assms(1) have "2 powi 52 * 2 powi ?e \<le> x"
    by (simp only: split abs_of_nonneg)
  then have "2 powi 52 \<le> x / 2 powi ?e"
    by (simp add: pos_le_divide_eq)
  then have "of_int (2 ^ 52) \<le> x / 2 powi ?e" by simp
  then have "round_even (of_int (2 ^ 52)) \<le> round_even (x / 2 powi ?e)"
    by (rule round_even_mono)
  then have "2 ^ 52 \<le> round_even (x / 2 powi ?e)" by (simp only: round_even_of_int)
  then have "(of_int (2 ^ 52) :: real) \<le> of_int (round_even (x / 2 powi ?e))"
    by (simp only: of_int_le_iff)
  then have "(of_int (2 ^ 52) :: real) * 2 powi ?e \<le> of_int (round_even (x / 2 powi ?e)) * 2 powi ?e"
    by (rule mult_right_mono) simp
  then show ?thesis by (simp add: round_grid_def split)
qed

lemma round_grid_nonneg:
  assumes "0 \<le> x"
  shows "0 \<le> round_grid x"
proof -
  from assms have "0 \<le> x / 2 powi ulp_exponent x" by simp
  then have "round_even 0 \<le> round_even (x / 2 powi ulp_exponent x)"
    by (rule round_even_mono)
  then have "0 \<le> round_even (x / 2 powi ulp_exponent x)"
    by simp
  then show ?thesis by (simp add: round_grid_def)
qed

lemma round_grid_mono_nonneg:
  assumes "0 \<le> x" and "x \<le> y"
  shows "round_grid x \<le> round_grid y"
proof -
  from assms have y0: "0 \<le> y" by simp
  from assms have "\<bar>x\<bar> \<le> \<bar>y\<bar>" by simp
  then have e: "ulp_exponent x \<le> ulp_exponent y" by (rule ulp_exponent_mono)
  show ?thesis
  proof (cases "ulp_exponent x = ulp_exponent y")
    case True
    from assms(2) have "x / 2 powi ulp_exponent y \<le> y / 2 powi ulp_exponent y"
      by (simp add: divide_right_mono)
    then have "round_even (x / 2 powi ulp_exponent y) \<le> round_even (y / 2 powi ulp_exponent y)"
      by (rule round_even_mono)
    then have "(of_int (round_even (x / 2 powi ulp_exponent y)) :: real) \<le>
        of_int (round_even (y / 2 powi ulp_exponent y))"
      by (simp only: of_int_le_iff)
    then have "(of_int (round_even (x / 2 powi ulp_exponent y)) :: real) * 2 powi ulp_exponent y \<le>
        of_int (round_even (y / 2 powi ulp_exponent y)) * 2 powi ulp_exponent y"
      by (rule mult_right_mono) simp
    then show ?thesis by (simp add: round_grid_def True)
  next
    case False
    with e have lt: "ulp_exponent x < ulp_exponent y" by simp
    with ulp_exponent_ge [of x] have "- 1074 < ulp_exponent y" by linarith
    from round_grid_lower [OF y0 this] have ly: "2 powi (ulp_exponent y + 52) \<le> round_grid y" .
    from round_grid_upper [OF assms(1)] have ux: "round_grid x \<le> 2 powi (ulp_exponent x + 53)" .
    from lt have "ulp_exponent x + 53 \<le> ulp_exponent y + 52" by simp
    then have "(2::real) powi (ulp_exponent x + 53) \<le> 2 powi (ulp_exponent y + 52)"
      by (intro power_int_increasing) simp_all
    with ux ly show ?thesis by linarith
  qed
qed

lemma round_grid_mono:
  assumes "x \<le> y"
  shows "round_grid x \<le> round_grid y"
proof (cases "0 \<le> x")
  case True
  then show ?thesis using assms by (rule round_grid_mono_nonneg)
next
  case False
  show ?thesis
  proof (cases "0 \<le> y")
    case True
    from False have "0 \<le> - x" by simp
    then have "0 \<le> round_grid (- x)" by (rule round_grid_nonneg)
    then have "round_grid x \<le> 0" by (simp add: round_grid_minus)
    with round_grid_nonneg [OF True] show ?thesis by linarith
  next
    case y: False
    then have "0 \<le> - y" by simp
    moreover from assms have "- y \<le> - x" by simp
    ultimately have "round_grid (- y) \<le> round_grid (- x)" by (rule round_grid_mono_nonneg)
    then show ?thesis by (simp add: round_grid_minus)
  qed
qed

lemma two_powi_less_cancel: "(2::real) powi a < 2 powi b \<Longrightarrow> a < b"
proof (rule ccontr)
  assume l: "(2::real) powi a < 2 powi b" and "\<not> a < b"
  then have "b \<le> a" by simp
  then have "(2::real) powi b \<le> 2 powi a" by (intro power_int_increasing) simp_all
  with l show False by simp
qed

lemma round_grid_dyadic:
  assumes m: "\<bar>m\<bar> < 2 ^ 53" and e: "- 1074 \<le> e"
  shows "round_grid (of_int m * 2 powi e) = of_int m * 2 powi e"
proof -
  define x :: real where "x = of_int m * 2 powi e"
  define E where "E = ulp_exponent x"
  have le: "E \<le> e"
  proof (cases "- 1074 < E")
    case True
    then have "2 powi (E + 52) \<le> \<bar>x\<bar>" unfolding E_def by (rule ulp_exponent_lower)
    also have "\<bar>x\<bar> = of_int \<bar>m\<bar> * 2 powi e" by (simp add: x_def abs_mult)
    also have "\<dots> < of_int (2 ^ 53) * 2 powi e"
      using m by (intro mult_strict_right_mono) (simp_all only: of_int_less_iff two_powi_pos)
    also have "\<dots> = 2 powi (e + 53)" by (simp add: power_int_add mult.commute)
    finally have "E + 52 < e + 53" by (rule two_powi_less_cancel)
    then show ?thesis by simp
  next
    case False
    with e show ?thesis by simp
  qed
  have "(2::real) powi (e - E + E) = 2 powi (e - E) * 2 powi E"
    by (rule power_int_add) simp
  then have sp: "(2::real) powi e = 2 powi (e - E) * 2 powi E" by simp
  have nat: "(2::real) powi (e - E) = of_int (2 ^ nat (e - E))"
    using le by (simp add: power_int_def)
  have "x / 2 powi E = of_int m * 2 powi (e - E)"
    unfolding x_def by (subst sp) simp
  also have "\<dots> = of_int (m * 2 ^ nat (e - E))"
    by (simp only: nat of_int_mult)
  finally have q: "x / 2 powi E = of_int (m * 2 ^ nat (e - E))" .
  have "round_grid x = of_int (round_even (x / 2 powi E)) * 2 powi E"
    by (simp add: round_grid_def E_def)
  also have "\<dots> = of_int (m * 2 ^ nat (e - E)) * 2 powi E"
    by (simp only: q round_even_of_int)
  also have "\<dots> = of_int m * (2 powi (e - E) * 2 powi E)"
    by (simp only: nat of_int_mult mult.assoc)
  also have "\<dots> = x" by (simp only: sp [symmetric] x_def)
  finally show ?thesis by (simp only: x_def)
qed

lemma round_double_fin:
  assumes "round_grid x = x" and "\<bar>x\<bar> < 2 ^ 1024"
  shows "round_double x = Fin x"
proof -
  from assms(2) have "\<not> 2 ^ 1024 \<le> x" "\<not> x \<le> - (2 ^ 1024)" by linarith+
  then show ?thesis by (simp add: round_double_def Let_def assms(1))
qed

lemma round_double_frac:
  assumes "\<bar>m\<bar> < 2 ^ 53" and "k \<le> 1074" and "\<bar>m\<bar> < 2 ^ 1024 * 2 ^ k"
  shows "round_double (of_int m / 2 ^ k) = Fin (of_int m / 2 ^ k)"
proof -
  have p: "(2::real) powi (- int k) = 1 / 2 ^ k"
    by (simp add: power_int_minus field_simps)
  have "round_grid (of_int m * 2 powi (- int k)) = of_int m * 2 powi (- int k)"
    using assms(1,2) by (intro round_grid_dyadic) simp_all
  then have g: "round_grid (of_int m / 2 ^ k) = of_int m / 2 ^ k"
    by (simp add: p)
  have "\<bar>of_int m / (2::real) ^ k\<bar> = of_int \<bar>m\<bar> / 2 ^ k" by simp
  also have "\<dots> < 2 ^ 1024"
    using assms(3) by (simp only: pos_divide_less_eq zero_less_power zero_less_numeral
        flip: of_int_less_iff [where ?'a = real]) simp
  finally show ?thesis using g by (intro round_double_fin)
qed

lemma ulp_exponent_eq:
  assumes lo: "2 powi (E + 52) \<le> \<bar>x\<bar>" and hi: "\<bar>x\<bar> < 2 powi (E + 53)" and E: "- 1074 \<le> E"
  shows "ulp_exponent x = E"
proof -
  from lo ulp_exponent_upper [of x] have "(2::real) powi (E + 52) < 2 powi (ulp_exponent x + 53)"
    by linarith
  then have "E + 52 < ulp_exponent x + 53" by (rule two_powi_less_cancel)
  then have a: "E \<le> ulp_exponent x" by simp
  show ?thesis
  proof (cases "- 1074 < ulp_exponent x")
    case True
    from ulp_exponent_lower [OF True] hi
    have "(2::real) powi (ulp_exponent x + 52) < 2 powi (E + 53)" by linarith
    then have "ulp_exponent x + 52 < E + 53" by (rule two_powi_less_cancel)
    with a show ?thesis by simp
  next
    case False
    with a E show ?thesis by simp
  qed
qed

lemma round_double_eval:
  assumes "2 powi (E + 52) \<le> \<bar>x\<bar>" and "\<bar>x\<bar> < 2 powi (E + 53)" and "- 1074 \<le> E"
    and "round_even (x / 2 powi E) = m"
    and "\<bar>of_int m * (2::real) powi E\<bar> < 2 ^ 1024"
  shows "round_double x = Fin (of_int m * 2 powi E)"
proof -
  have e: "ulp_exponent x = E" using assms(1-3) by (rule ulp_exponent_eq)
  have g: "round_grid x = of_int m * 2 powi E"
    by (simp add: round_grid_def e assms(4))
  from assms(5) have "\<not> 2 ^ 1024 \<le> of_int m * (2::real) powi E"
    "\<not> of_int m * (2::real) powi E \<le> - (2 ^ 1024)" by linarith+
  then show ?thesis by (simp add: round_double_def Let_def g)
qed

lemma round_double_cases:
  obtains (fin) "round_double x = Fin (round_grid x)" "\<bar>round_grid x\<bar> < 2 ^ 1024"
  | (pinf) "round_double x = PInf" "2 ^ 1024 \<le> round_grid x"
  | (ninf) "round_double x = NInf" "round_grid x \<le> - (2 ^ 1024)"
proof (cases "2 ^ 1024 \<le> round_grid x")
  case True
  then have "round_double x = PInf" by (simp add: round_double_def Let_def)
  then show ?thesis using True by (rule pinf)
next
  case False
  show ?thesis
  proof (cases "round_grid x \<le> - (2 ^ 1024)")
    case True
    with False have "round_double x = NInf" by (simp add: round_double_def Let_def)
    then show ?thesis using True by (rule ninf)
  next
    case nn: False
    with False have "round_double x = Fin (round_grid x)" by (simp add: round_double_def Let_def)
    moreover from False nn have "\<bar>round_grid x\<bar> < 2 ^ 1024" by linarith
    ultimately show ?thesis by (rule fin)
  qed
qed

lemma round_double_FinD:
  assumes "round_double c = Fin v"
  shows "round_grid c = v \<and> \<bar>v\<bar> < 2 ^ 1024"
  using assms by (cases c rule: round_double_cases) simp_all

lemma at_least_round:
  assumes "round_double c = Fin c'" and "c \<le> x"
  shows "at_least c' (round_double x)"
proof -
  from round_double_FinD [OF assms(1)] have c: "round_grid c = c'" "\<bar>c'\<bar> < 2 ^ 1024" by simp_all
  from assms(2) have "round_grid c \<le> round_grid x" by (rule round_grid_mono)
  with c have le: "c' \<le> round_grid x" by simp
  show ?thesis
  proof (cases x rule: round_double_cases)
    case fin
    with le show ?thesis by (simp add: at_least_def)
  next
    case pinf
    then show ?thesis by (simp add: at_least_def)
  next
    case ninf
    with le c(2) have False by linarith
    then show ?thesis ..
  qed
qed

lemma at_most_round:
  assumes "round_double c = Fin c'" and "x \<le> c"
  shows "at_most c' (round_double x)"
proof -
  from round_double_FinD [OF assms(1)] have c: "round_grid c = c'" "\<bar>c'\<bar> < 2 ^ 1024" by simp_all
  from assms(2) have "round_grid x \<le> round_grid c" by (rule round_grid_mono)
  with c have le: "round_grid x \<le> c'" by simp
  show ?thesis
  proof (cases x rule: round_double_cases)
    case fin
    with le show ?thesis by (simp add: at_most_def)
  next
    case pinf
    with le c(2) have False by linarith
    then show ?thesis ..
  next
    case ninf
    then show ?thesis by (simp add: at_most_def)
  qed
qed

lemma at_least_fmul:
  assumes "at_least c1 a" and "at_least c2 b" and "0 < c1" and "0 < c2"
    and "round_double (c1 * c2) = Fin (c1 * c2)"
  shows "at_least (c1 * c2) (fmul a b)"
proof (cases a)
  case (Fin x)
  with assms(1) have x: "c1 \<le> x" by (simp add: at_least_def)
  show ?thesis
  proof (cases b)
    case (Fin y)
    with assms(2) have y: "c2 \<le> y" by (simp add: at_least_def)
    from x y assms(3,4) have "c1 * c2 \<le> x * y" by (intro mult_mono) simp_all
    with assms(5) have "at_least (c1 * c2) (round_double (x * y))" by (rule at_least_round)
    then show ?thesis by (simp add: \<open>a = Fin x\<close> Fin)
  next
    case PInf
    with x assms(3) show ?thesis by (simp add: \<open>a = Fin x\<close> at_least_def)
  qed (use assms(2) in \<open>simp_all add: at_least_def\<close>)
next
  case PInf
  show ?thesis
  proof (cases b)
    case (Fin y)
    with assms(2,4) have "0 < y" by (simp add: at_least_def)
    then show ?thesis by (simp add: PInf Fin at_least_def)
  qed (use assms(2) in \<open>simp_all add: at_least_def PInf\<close>)
qed (use assms(1) in \<open>simp_all add: at_least_def\<close>)

lemma at_least_fadd:
  assumes "at_least c1 a" and "at_least c2 b"
    and "round_double (c1 + c2) = Fin c'"
  shows "at_least c' (fadd a b)"
proof (cases a)
  case (Fin x)
  with assms(1) have x: "c1 \<le> x" by (simp add: at_least_def)
  show ?thesis
  proof (cases b)
    case (Fin y)
    with assms(2) have y: "c2 \<le> y" by (simp add: at_least_def)
    from x y have "c1 + c2 \<le> x + y" by simp
    with assms(3) have "at_least c' (round_double (x + y))" by (rule at_least_round)
    then show ?thesis by (simp add: \<open>a = Fin x\<close> Fin)
  qed (use assms(2) in \<open>simp_all add: at_least_def \<open>a = Fin x\<close>\<close>)
next
  case PInf
  show ?thesis
    by (cases b) (use assms(2) in \<open>simp_all add: at_least_def PInf\<close>)
qed (use assms(1) in \<open>simp_all add: at_least_def\<close>)

lemma at_most_fmul_neg:
  assumes "at_least c1 a" and "0 < c1" and "y \<le> c2" and "c2 < 0"
    and "round_double (c1 * c2) = Fin (c1 * c2)"
  shows "at_most (c1 * c2) (fmul a (Fin y))"
proof (cases a)
  case (Fin x)
  with assms(1) have x: "c1 \<le> x" by (simp add: at_least_def)
  have "x * y \<le> c1 * y"
    using x assms(3,4) by (intro mult_right_mono_neg) simp_all
  also have "c1 * y \<le> c1 * c2"
    using assms(2,3) by (intro mult_left_mono) simp_all
  finally have "x * y \<le> c1 * c2" .
  with assms(5) have "at_most (c1 * c2) (round_double (x * y))" by (rule at_most_round)
  then show ?thesis by (simp add: Fin)
next
  case PInf
  from assms(3,4) have "y < 0" by simp
  then show ?thesis by (simp add: PInf at_most_def)
qed (use assms(1) in \<open>simp_all add: at_least_def\<close>)

lemma at_most_fadd:
  assumes "x \<le> c1" and "at_most c2 b"
    and "round_double (c1 + c2) = Fin (c1 + c2)"
  shows "at_most (c1 + c2) (fadd (Fin x) b)"
proof (cases b)
  case (Fin y)
  with assms(2) have "y \<le> c2" by (simp add: at_most_def)
  with assms(1) have "x + y \<le> c1 + c2" by simp
  with assms(3) have "at_most (c1 + c2) (round_double (x + y))" by (rule at_most_round)
  then show ?thesis by (simp add: Fin)
qed (use assms(2) in \<open>simp_all add: at_most_def\<close>)

lemma clamp_at_least:
  assumes "at_least c a" and "0 \<le> c"
  shows "\<exists>t. pymax (Fin 0) (pymin (Fin 1) a) = Fin t \<and> min 1 c \<le> t \<and> t \<le> 1"
  using assms by (cases a) (auto simp: at_least_def pymax_def pymin_def)

lemma clamp_at_most:
  assumes "at_most c a"
  shows "\<exists>t. pymax (Fin 0) (pymin (Fin 1) a) = Fin t \<and> 0 \<le> t \<and> t \<le> max 0 c"
  using assms by (cases a) (auto simp: at_most_def pymax_def pymin_def)

lemma rd_0: "round_double 0 = Fin 0"
  using round_double_frac [of 0 0] by simp

lemma rd_1: "round_double 1 = Fin 1"
  using round_double_frac [of 1 0] by simp

lemma rd_half: "round_double (1 / 2) = Fin (1 / 2)"
  using round_double_frac [of 1 1] by simp

lemma rd_big: "round_double (2 ^ 1023) = Fin (2 ^ 1023)"
  using round_double_fin [of "2 ^ 1023"] round_grid_dyadic [of 1 1023] by simp

lemma int_to_double_nonneg:
  assumes "0 \<le> n" and "n \<le> 2 ^ 1023"
  shows "\<exists>v. int_to_double n = Fin v \<and> 0 \<le> v"
proof -
  from assms(1) have "(0::real) \<le> of_int n" by simp
  with rd_0 have lo: "at_least 0 (round_double (of_int n))" by (rule at_least_round)
  from assms(2) have "(of_int n :: real) \<le> of_int (2 ^ 1023)" by (simp only: of_int_le_iff)
  then have "(of_int n :: real) \<le> 2 ^ 1023" by simp
  with rd_big have hi: "at_most (2 ^ 1023) (round_double (of_int n))" by (rule at_most_round)
  from lo hi show ?thesis
    by (cases "round_double (real_of_int n)") (simp_all add: at_least_def at_most_def int_to_double_def)
qed

lemma ramp_at_least_one:
  assumes "0 \<le> n" and "n \<le> 2 ^ 1023" and "0 \<le> dl"
  shows "at_least 1 (fadd (Fin 1) (fmul (int_to_double n) (Fin dl)))"
proof -
  from int_to_double_nonneg [OF assms(1,2)] obtain v where v: "int_to_double n = Fin v" "0 \<le> v"
    by blast
  from v(2) assms(3) have "0 \<le> v * dl" by simp
  with rd_0 have p: "at_least 0 (round_double (v * dl))" by (rule at_least_round)
  have one: "at_least 1 (Fin 1)" by (simp add: at_least_def)
  from at_least_fadd [OF one p] rd_1 show ?thesis by (simp add: v(1))
qed

lemma rd_two_m53: "round_double (1 / 2 ^ 53) = Fin (1 / 2 ^ 53)"
  using round_double_frac [of 1 53] by simp

lemma rd_next_above_two_m53:
  "round_double (1 / 2 ^ 53 + 1 / 2 ^ 105) = Fin (1 / 2 ^ 53 + 1 / 2 ^ 105)"
  using round_double_frac [of "2 ^ 52 + 1" 105] by simp

lemma rd_half_next_above_two_m53:
  "round_double (1 / 2 ^ 54 + 1 / 2 ^ 106) = Fin (1 / 2 ^ 54 + 1 / 2 ^ 106)"
  using round_double_frac [of "2 ^ 52 + 1" 106] by simp

lemma rd_above_midpoint:
  "round_double (1 / 2 + (1 / 2 ^ 54 + 1 / 2 ^ 106)) = Fin (1 / 2 + 1 / 2 ^ 53)"
  using round_double_eval [of "- 53" "1 / 2 + (1 / 2 ^ 54 + 1 / 2 ^ 106)" "2 ^ 52 + 1"]
  by (simp add: round_even_def)

lemma rd_minus_three_halves: "round_double (- (3 / 2)) = Fin (- (3 / 2))"
  using round_double_frac [of "- 3" 1] by simp

lemma rd_minus_three_quarter_eps: "round_double (- (3 / 2 ^ 54)) = Fin (- (3 / 2 ^ 54))"
  using round_double_frac [of "- 3" 54] by simp

lemma rd_below_half: "round_double (1 / 2 - 3 / 2 ^ 54) = Fin (1 / 2 - 3 / 2 ^ 54)"
  using round_double_frac [of "2 ^ 53 - 3" 54] by simp

text \<open>The smallest double above \<open>2 ^ -53\<close>.\<close>

lemma next_double_above_two_m53:
  assumes rep: "round_double v = Fin v" and gt: "1 / 2 ^ 53 < v"
  shows "1 / 2 ^ 53 + 1 / 2 ^ 105 \<le> v"
proof -
  define E where "E = ulp_exponent v"
  from gt have v0: "0 < v" by (rule less_trans [rotated]) simp
  from round_double_FinD [OF rep] have g: "round_grid v = v" by simp
  have c53: "(1::real) / 2 ^ 53 = 2 powi (- 53)" by (simp add: power_int_minus field_simps)
  have c105: "(1::real) / 2 ^ 105 = 2 powi (- 105)" by (simp add: power_int_minus field_simps)
  have c52: "(1::real) / 2 ^ 52 = 2 powi (- 52)" by (simp add: power_int_minus field_simps)
  have "ulp_exponent (1 / 2 ^ 53) = - 105"
    by (rule ulp_exponent_eq) (simp_all add: power_int_minus field_simps)
  moreover have "ulp_exponent (1 / 2 ^ 53) \<le> ulp_exponent v"
    using gt by (intro ulp_exponent_mono) simp
  ultimately have E: "- 105 \<le> E" by (simp add: E_def)
  show ?thesis
  proof (cases "E = - 105")
    case True
    define M where "M = round_even (v / 2 powi (- 105))"
    from g have v: "v = of_int M * 2 powi (- 105)"
      by (simp add: round_grid_def M_def E_def [symmetric] True)
    from gt have "(2::real) powi (- 53) < of_int M * 2 powi (- 105)"
      by (simp only: c53 v [symmetric])
    moreover have "(2::real) powi (- 53) = of_int (2 ^ 52) * 2 powi (- 105)"
      by (simp add: power_int_minus field_simps)
    ultimately have "(of_int (2 ^ 52) :: real) * 2 powi (- 105) < of_int M * 2 powi (- 105)"
      by (simp only:)
    then have "(of_int (2 ^ 52) :: real) < of_int M"
      by (simp only: mult_less_cancel_right_pos two_powi_pos)
    then have "2 ^ 52 < M" by (simp only: of_int_less_iff)
    then have "2 ^ 52 + 1 \<le> M" by simp
    then have "(of_int (2 ^ 52 + 1) :: real) \<le> of_int M" by (simp only: of_int_le_iff)
    then have "(of_int (2 ^ 52 + 1) :: real) * 2 powi (- 105) \<le> of_int M * 2 powi (- 105)"
      by (rule mult_right_mono) simp
    moreover have "(of_int (2 ^ 52 + 1) :: real) * 2 powi (- 105) = 1 / 2 ^ 53 + 1 / 2 ^ 105"
      by (simp add: power_int_minus field_simps)
    ultimately show ?thesis by (simp only: v [symmetric])
  next
    case False
    with E have lt: "- 105 < E" by simp
    then have "- 1074 < ulp_exponent v" by (simp add: E_def)
    from ulp_exponent_lower [OF this] v0 have "2 powi (E + 52) \<le> v"
      by (simp add: E_def)
    moreover from lt have "(2::real) powi (- 52) \<le> 2 powi (E + 52)"
      by (intro power_int_increasing) simp_all
    moreover have "(1::real) / 2 ^ 53 + 1 / 2 ^ 105 \<le> 2 powi (- 52)"
      by (simp add: power_int_minus field_simps)
    ultimately show ?thesis by linarith
  qed
qed

lemma round_double_minus: "round_double (- x) = fneg (round_double x)"
proof -
  define B :: real where "B = 2 ^ 1024"
  have B: "0 < B" by (simp add: B_def)
  have alt: "round_double y =
      (if B \<le> round_grid y then PInf else if round_grid y \<le> - B then NInf
       else Fin (round_grid y))" for y
    by (simp add: round_double_def Let_def B_def)
  show ?thesis
  proof (cases "B \<le> round_grid x")
    case True
    with B have "\<not> B \<le> - round_grid x" "- round_grid x \<le> - B" by linarith+
    with True show ?thesis by (simp add: alt round_grid_minus)
  next
    case False
    show ?thesis
    proof (cases "round_grid x \<le> - B")
      case True
      then have "B \<le> - round_grid x" by linarith
      with True False show ?thesis by (simp add: alt round_grid_minus)
    next
      case nn: False
      with False have "\<not> B \<le> - round_grid x" "\<not> - round_grid x \<le> - B" by linarith+
      with False nn show ?thesis by (simp add: alt round_grid_minus)
    qed
  qed
qed

lemma fmul_fneg_left: "fmul (fneg a) b = fneg (fmul a b)"
  by (cases a; cases b) (simp_all add: round_double_minus)

lemma fmul_fneg_right: "fmul a (fneg b) = fneg (fmul a b)"
  by (cases a; cases b) (simp_all add: round_double_minus)

lemma flt_asym: "flt a b \<Longrightarrow> \<not> flt b a"
  by (cases a; cases b) simp_all

lemma rd_minus_big: "round_double (- (2 ^ 1023)) = Fin (- (2 ^ 1023))"
  using round_double_minus [of "2 ^ 1023"] rd_big by simp

lemma int_to_double_finite:
  assumes "- (2 ^ 1023) \<le> n" and "n \<le> 2 ^ 1023"
  shows "isfinite (int_to_double n)"
proof -
  from assms(1) have "(of_int (- (2 ^ 1023)) :: real) \<le> of_int n" by (simp only: of_int_le_iff)
  then have "- (2 ^ 1023) \<le> (of_int n :: real)" by simp
  with rd_minus_big have lo: "at_least (- (2 ^ 1023)) (round_double (of_int n))"
    by (rule at_least_round)
  from assms(2) have "(of_int n :: real) \<le> of_int (2 ^ 1023)" by (simp only: of_int_le_iff)
  then have "(of_int n :: real) \<le> 2 ^ 1023" by simp
  with rd_big have hi: "at_most (2 ^ 1023) (round_double (of_int n))" by (rule at_most_round)
  from lo hi show ?thesis
    by (cases "round_double (real_of_int n)") (simp_all add: at_least_def at_most_def int_to_double_def)
qed

lemma isfinite_fmulD: "isfinite (fmul a b) \<Longrightarrow> isfinite a \<and> isfinite b"
  by (cases a; cases b) (simp_all split: if_splits)

lemma isfinite_faddD: "isfinite (fadd a b) \<Longrightarrow> isfinite a \<and> isfinite b"
  by (cases a; cases b) simp_all

lemma round_double_mono_nonneg:
  assumes "round_double y = Fin b" and "0 \<le> x" and "x \<le> y"
  shows "\<exists>a. round_double x = Fin a \<and> 0 \<le> a \<and> a \<le> b"
proof -
  from round_double_FinD [OF assms(1)] have b: "round_grid y = b" "\<bar>b\<bar> < 2 ^ 1024" by simp_all
  from assms(3) have "round_grid x \<le> round_grid y" by (rule round_grid_mono)
  with b have le: "round_grid x \<le> b" by simp
  from assms(2) have ge: "0 \<le> round_grid x" by (rule round_grid_nonneg)
  from le ge b(2) have bd: "\<bar>round_grid x\<bar> < 2 ^ 1024" by linarith
  have "round_double x = Fin (round_grid x)"
  proof (cases x rule: round_double_cases)
    case fin
    then show ?thesis by simp
  next
    case pinf
    with bd have False by linarith
    then show ?thesis ..
  next
    case ninf
    with bd have False by linarith
    then show ?thesis ..
  qed
  with le ge show ?thesis by blast
qed

lemma round_double_mono_nonpos:
  assumes "round_double y = Fin b" and "y \<le> x" and "x \<le> 0"
  shows "\<exists>a. round_double x = Fin a \<and> b \<le> a \<and> a \<le> 0"
proof -
  from assms(1) have "round_double (- y) = Fin (- b)" by (simp add: round_double_minus)
  moreover from assms(3) have "0 \<le> - x" by simp
  moreover from assms(2) have "- x \<le> - y" by simp
  ultimately obtain a where a: "round_double (- x) = Fin a" "0 \<le> a" "a \<le> - b"
    using round_double_mono_nonneg by blast
  from a(1) have "round_double x = Fin (- a)"
    by (cases "round_double x") (simp_all add: round_double_minus)
  with a(2,3) show ?thesis by simp
qed

lemma clamp_round:
  "pymax (Fin 0) (pymin (Fin 1) (round_double x)) = Fin (max 0 (min 1 (round_grid x)))"
  by (cases x rule: round_double_cases) (auto simp: pymax_def pymin_def)

lemma clamp_fin: "\<exists>t. pymax (Fin 0) (pymin (Fin 1) a) = Fin t \<and> 0 \<le> t \<and> t \<le> 1"
  by (cases a) (auto simp: pymax_def pymin_def)

lemma round_even_bounds:
  assumes "0 \<le> x"
  shows "0 \<le> round_even (x / 2 powi ulp_exponent x) \<and>
         round_even (x / 2 powi ulp_exponent x) \<le> 2 ^ 53"
proof -
  let ?e = "ulp_exponent x"
  have split: "(2::real) powi (?e + 53) = 2 powi 53 * 2 powi ?e"
    by (simp add: power_int_add mult.commute)
  from ulp_exponent_upper [of x] assms have "x < 2 powi 53 * 2 powi ?e"
    by (simp only: split abs_of_nonneg)
  then have "x / 2 powi ?e < 2 powi 53"
    by (simp add: pos_divide_less_eq)
  then have "x / 2 powi ?e \<le> of_int (2 ^ 53)" by simp
  then have "round_even (x / 2 powi ?e) \<le> round_even (of_int (2 ^ 53))"
    by (rule round_even_mono)
  then have hi: "round_even (x / 2 powi ?e) \<le> 2 ^ 53" by (simp only: round_even_of_int)
  from assms have "0 \<le> x / 2 powi ?e" by simp
  then have "round_even 0 \<le> round_even (x / 2 powi ?e)" by (rule round_even_mono)
  with hi show ?thesis by simp
qed

lemma round_grid_idem_nonneg:
  assumes "0 \<le> x"
  shows "round_grid (round_grid x) = round_grid x"
proof -
  define E where "E = ulp_exponent x"
  define M where "M = round_even (x / 2 powi E)"
  have v: "round_grid x = of_int M * 2 powi E" by (simp add: round_grid_def M_def E_def)
  from round_even_bounds [OF assms] have M: "0 \<le> M" "M \<le> 2 ^ 53" by (simp_all add: M_def E_def)
  have E: "- 1074 \<le> E" unfolding E_def by (rule ulp_exponent_ge)
  show ?thesis
  proof (cases "M = 2 ^ 53")
    case True
    have "(2::real) powi (E + 1) = 2 powi E * 2 powi 1"
      by (rule power_int_add) simp
    then have "of_int M * (2::real) powi E = of_int (2 ^ 52) * 2 powi (E + 1)"
      by (simp add: True)
    moreover have "round_grid (of_int (2 ^ 52) * 2 powi (E + 1)) = of_int (2 ^ 52) * 2 powi (E + 1)"
      using E by (intro round_grid_dyadic) simp_all
    ultimately show ?thesis by (simp only: v)
  next
    case False
    with M have "\<bar>M\<bar> < 2 ^ 53" by simp
    then have "round_grid (of_int M * 2 powi E) = of_int M * 2 powi E"
      using E by (rule round_grid_dyadic)
    then show ?thesis by (simp only: v)
  qed
qed

lemma round_grid_idem: "round_grid (round_grid x) = round_grid x"
proof (cases "0 \<le> x")
  case True
  then show ?thesis by (rule round_grid_idem_nonneg)
next
  case False
  then have "0 \<le> - x" by simp
  then have "round_grid (round_grid (- x)) = round_grid (- x)" by (rule round_grid_idem_nonneg)
  then show ?thesis by (simp add: round_grid_minus)
qed

lemma round_grid_one [simp]: "round_grid 1 = 1"
  using round_grid_dyadic [of 1 0] by simp

lemma clamp_fadd_representable:
  assumes "pymax (Fin 0) (pymin (Fin 1) (fadd a b)) = Fin t"
  shows "round_grid t = t \<and> 0 \<le> t \<and> t \<le> 1"
proof (cases "\<exists>x y. a = Fin x \<and> b = Fin y")
  case True
  then obtain x y where "a = Fin x" "b = Fin y" by blast
  with assms have t: "t = max 0 (min 1 (round_grid (x + y)))"
    by (simp add: clamp_round)
  then have "t = 0 \<or> t = 1 \<or> t = round_grid (x + y)" by (auto simp: max_def min_def)
  then have "round_grid t = t" by (auto simp: round_grid_idem)
  with t show ?thesis by simp
next
  case False
  then have "fadd a b = NaN \<or> fadd a b = PInf \<or> fadd a b = NInf"
    by (cases a; cases b) simp_all
  with assms have "t = 0 \<or> t = 1" by (auto simp: pymax_def pymin_def)
  then show ?thesis by auto
qed

lemma isfiniteE:
  assumes "isfinite a"
  obtains v where "a = Fin v"
  using assms by (cases a) simp_all

subsection \<open>Evaluation at constants\<close>

lemmas observe_d_defs =
  observe_d_def observe_d_delta_t_def observe_d_factor_def observe_d_ramp_def
  observe_d_alpha_def observe_d_betrayals_def int_to_double_def fsub_def
  pymax_def pymin_def new_TrustMeter_d_def

lemma ALPHA_POS_d_value: "ALPHA_POS_d = Fin (3602879701896397 / 2 ^ 56)"
  unfolding ALPHA_POS_d_def
  using round_double_eval [of "- 57" "5 / 100" "7205759403792794"]
  by (simp add: round_even_def)

lemma ALPHA_NEG_d_value: "ALPHA_NEG_d = Fin (1 / 2)"
  unfolding ALPHA_NEG_d_def using round_double_frac [of 1 1] by simp

lemma DELTA_d_value: "DELTA_d = Fin (5404319552844595 / 2 ^ 54)"
  unfolding DELTA_d_def
  using round_double_eval [of "- 54" "30 / 100" "5404319552844595"]
  by (simp add: round_even_def)

lemmas rd_small =
  round_double_frac [of 0 0, simplified]
  round_double_frac [of 1 0, simplified]
  round_double_frac [of 2 0, simplified]
  round_double_frac [of 1 1, simplified]
  round_double_frac [of 3 1, simplified]
  round_double_frac [of 3 2, simplified]
  round_double_frac [of 5 3, simplified]
  round_double_frac [of 17 5, simplified]
  round_double_frac [of 41 6, simplified]
  round_double_frac [of 3 4, simplified]
  round_double_frac [of 3 5, simplified]
  round_double_frac [of "- 1" 0, simplified]
  round_double_frac [of "- 2" 0, simplified]
  round_double_frac [of "- 4" 0, simplified]
  round_double_frac [of "- 5" 0, simplified]
  round_double_frac [of "- 10" 0, simplified]
  round_double_frac [of "- 1" 1, simplified]
  round_double_frac [of "- 1" 3, simplified]
  round_double_frac [of "- 3" 1, simplified]
  round_double_frac [of "- 3" 2, simplified]
  round_double_frac [of "- 3" 3, simplified]
  round_double_frac [of "- 3" 5, simplified]
  round_double_frac [of "- 9" 6, simplified]
  round_double_frac [of 9 6, simplified]
  round_double_frac [of 1 53, simplified]
  round_double_frac [of 1 54, simplified]
  round_double_frac [of 1 59, simplified]
  round_double_frac [of 1 60, simplified]
  round_double_frac [of "- 1" 2, simplified]

lemma rd_tie_at_half: "round_double (1 / 2 + 1 / 2 ^ 54) = Fin (1 / 2)"
  using round_double_eval [of "- 53" "1 / 2 + 1 / 2 ^ 54" "2 ^ 52"]
  by (simp add: round_even_def)

lemma rd_absorbed_60: "round_double (1 + 1 / 2 ^ 60) = Fin 1"
  using round_double_eval [of "- 52" "1 + 1 / 2 ^ 60" "2 ^ 52"]
  by (simp add: round_even_def)

lemma rd_absorbed_59: "round_double (1 + 1 / 2 ^ 59) = Fin 1"
  using round_double_eval [of "- 52" "1 + 1 / 2 ^ 59" "2 ^ 52"]
  by (simp add: round_even_def)

lemma rd_overflow: "round_double (2 ^ 1024) = PInf"
  using round_grid_dyadic [of 1 1024] by (simp add: round_double_def)

lemma rd_big_plus_one: "round_double (1 + 2 ^ 1023) = Fin (2 ^ 1023)"
  using round_double_eval [of 971 "1 + 2 ^ 1023" "2 ^ 52"]
  by (simp add: round_even_def)

section \<open>Properties of the update rule in double arithmetic\<close>

subsection \<open>Directionality\<close>

text \<open>
  C8 as stated fails, in three ways. With \<open>alpha_pos = 0\<close> and \<open>alpha_neg = 0\<close>, which
  the stated range \<open>[0, 1]\<close> allows, \<open>observe(1.0)\<close> and \<open>observe(-1.0)\<close> from trust 0.5
  leave the trust at 0.5. With \<open>alpha_pos = 2 ^ -53\<close> the change is \<open>2 ^ -54\<close>, half
  the distance from 0.5 to the next double; the sum is a tie, rounds to even, and the
  trust stays 0.5 as well. And a meter built with \<open>_betrayals = -10\<close> (the generated
  constructor takes the field) has a negative factor, so that \<open>observe(1.0)\<close> lowers
  the trust from 0.5 to 0.
\<close>

theorem directionality_counterexample:
  "fst (observe_d (new_TrustMeter_d (Fin (1 / 2)) (Fin 0) (Fin 0) (Fin (1 / 2)) 0) (Fin 1) (Fin 1)) = Inr () \<and>
   d_trust (new_TrustMeter_d (Fin (1 / 2)) (Fin 0) (Fin 0) (Fin (1 / 2)) 0) = Fin (1 / 2) \<and>
   d_trust (snd (observe_d (new_TrustMeter_d (Fin (1 / 2)) (Fin 0) (Fin 0) (Fin (1 / 2)) 0) (Fin 1) (Fin 1))) = Fin (1 / 2) \<and>
   \<not> flt (d_trust (new_TrustMeter_d (Fin (1 / 2)) (Fin 0) (Fin 0) (Fin (1 / 2)) 0)) (d_trust (snd (observe_d (new_TrustMeter_d (Fin (1 / 2)) (Fin 0) (Fin 0) (Fin (1 / 2)) 0) (Fin 1) (Fin 1)))) \<and>
   fst (observe_d (new_TrustMeter_d (Fin (1 / 2)) (Fin 0) (Fin 0) (Fin (1 / 2)) 0) (Fin (- 1)) (Fin 1)) = Inr () \<and>
   d_trust (snd (observe_d (new_TrustMeter_d (Fin (1 / 2)) (Fin 0) (Fin 0) (Fin (1 / 2)) 0) (Fin (- 1)) (Fin 1))) = Fin (1 / 2) \<and>
   \<not> flt (d_trust (snd (observe_d (new_TrustMeter_d (Fin (1 / 2)) (Fin 0) (Fin 0) (Fin (1 / 2)) 0) (Fin (- 1)) (Fin 1)))) (d_trust (new_TrustMeter_d (Fin (1 / 2)) (Fin 0) (Fin 0) (Fin (1 / 2)) 0)) \<and>
   fst (observe_d (new_TrustMeter_d (Fin (1 / 2)) (Fin (1 / 2 ^ 53)) (Fin (1 / 2)) (Fin (1 / 2)) 0) (Fin 1) (Fin 1)) = Inr () \<and>
   d_trust (new_TrustMeter_d (Fin (1 / 2)) (Fin (1 / 2 ^ 53)) (Fin (1 / 2)) (Fin (1 / 2)) 0) = Fin (1 / 2) \<and>
   d_trust (snd (observe_d (new_TrustMeter_d (Fin (1 / 2)) (Fin (1 / 2 ^ 53)) (Fin (1 / 2)) (Fin (1 / 2)) 0) (Fin 1) (Fin 1))) = Fin (1 / 2) \<and>
   \<not> flt (d_trust (new_TrustMeter_d (Fin (1 / 2)) (Fin (1 / 2 ^ 53)) (Fin (1 / 2)) (Fin (1 / 2)) 0)) (d_trust (snd (observe_d (new_TrustMeter_d (Fin (1 / 2)) (Fin (1 / 2 ^ 53)) (Fin (1 / 2)) (Fin (1 / 2)) 0) (Fin 1) (Fin 1)))) \<and>
   fst (observe_d (new_TrustMeter_d (Fin (1 / 2)) (Fin (1 / 2)) (Fin (1 / 2)) (Fin (1 / 2)) (- 10)) (Fin 1) (Fin 1)) = Inr () \<and>
   d_trust (new_TrustMeter_d (Fin (1 / 2)) (Fin (1 / 2)) (Fin (1 / 2)) (Fin (1 / 2)) (- 10)) = Fin (1 / 2) \<and>
   d_trust (snd (observe_d (new_TrustMeter_d (Fin (1 / 2)) (Fin (1 / 2)) (Fin (1 / 2)) (Fin (1 / 2)) (- 10)) (Fin 1) (Fin 1))) = Fin 0 \<and>
   \<not> flt (d_trust (new_TrustMeter_d (Fin (1 / 2)) (Fin (1 / 2)) (Fin (1 / 2)) (Fin (1 / 2)) (- 10))) (d_trust (snd (observe_d (new_TrustMeter_d (Fin (1 / 2)) (Fin (1 / 2)) (Fin (1 / 2)) (Fin (1 / 2)) (- 10)) (Fin 1) (Fin 1))))"
  by (simp add: observe_d_defs rd_small rd_tie_at_half [simplified])

text \<open>
  C8, amended. For a meter whose \<open>alpha_pos\<close> and \<open>alpha_neg\<close> are in \<open>(2 ^ -53, 1]\<close>
  (\<open>alpha_pos\<close> a double, as every float is), with a finite \<open>delta \<ge> 0\<close>, a betrayal
  counter in \<open>[0, 2 ^ 1023)\<close> and current trust 0.5, in double arithmetic:
  \<open>observe(1.0)\<close> with the default severity 1.0 returns normally and strictly
  increases the trust, and \<open>observe(-1.0)\<close> with the default severity returns normally
  and strictly decreases it.
\<close>

theorem directionality_in_doubles:
  assumes t: "d_trust tm = Fin (1 / 2)"
    and ap: "d_alpha_pos tm = Fin ap" "round_double ap = Fin ap" "1 / 2 ^ 53 < ap" "ap \<le> 1"
    and an: "d_alpha_neg tm = Fin an" "1 / 2 ^ 53 < an" "an \<le> 1"
    and dl: "d_delta tm = Fin dl" "0 \<le> dl"
    and n: "0 \<le> d_betrayals tm" "d_betrayals tm < 2 ^ 1023"
  shows "fst (observe_d tm (Fin 1) (Fin 1)) = Inr () \<and>
         flt (d_trust tm) (d_trust (snd (observe_d tm (Fin 1) (Fin 1)))) \<and>
         fst (observe_d tm (Fin (- 1)) (Fin 1)) = Inr () \<and>
         flt (d_trust (snd (observe_d tm (Fin (- 1)) (Fin 1)))) (d_trust tm)"
proof -
  have one: "at_least 1 (Fin 1)" by (simp add: at_least_def)
  (* reward 1.0 *)
  have b_up: "observe_d_betrayals tm (Fin 1) = d_betrayals tm"
    by (simp add: observe_d_betrayals_def t)
  have a_up: "observe_d_alpha tm (Fin 1) = Fin ap"
    by (simp add: observe_d_alpha_def t ap(1))
  from n have n_up: "0 \<le> d_betrayals tm" "d_betrayals tm \<le> 2 ^ 1023" by simp_all
  from int_to_double_nonneg [OF n_up] have fin_up: "isfinite (int_to_double (d_betrayals tm))"
    by auto
  have ramp_up: "at_least 1 (observe_d_ramp tm (Fin 1))"
    unfolding observe_d_ramp_def b_up dl(1) using n_up dl(2) by (rule ramp_at_least_one)
  have "at_least (1 * 1) (observe_d_factor tm (Fin 1) (Fin 1))"
    unfolding observe_d_factor_def using one ramp_up
    by (rule at_least_fmul) (simp_all add: rd_1)
  then have factor_up: "at_least 1 (observe_d_factor tm (Fin 1) (Fin 1))" by simp
  from ap(2,3) have "1 / 2 ^ 53 + 1 / 2 ^ 105 \<le> ap" by (rule next_double_above_two_m53)
  then have "at_least (1 / 2 ^ 53 + 1 / 2 ^ 105) (Fin ap)" by (simp add: at_least_def)
  then have "at_least ((1 / 2 ^ 53 + 1 / 2 ^ 105) * 1)
      (fmul (Fin ap) (observe_d_factor tm (Fin 1) (Fin 1)))"
    using factor_up by (rule at_least_fmul) (simp_all add: rd_next_above_two_m53 [simplified])
  then have af_up: "at_least (1 / 2 ^ 53 + 1 / 2 ^ 105)
      (fmul (Fin ap) (observe_d_factor tm (Fin 1) (Fin 1)))"
    by simp
  have gap_up: "fsub (Fin 1) (d_trust tm) = Fin (1 / 2)"
    by (simp add: fsub_def t rd_half)
  have half: "at_least (1 / 2) (Fin (1 / 2))" by (simp add: at_least_def)
  have "at_least ((1 / 2 ^ 53 + 1 / 2 ^ 105) * (1 / 2)) (observe_d_delta_t tm (Fin 1) (Fin 1))"
    unfolding observe_d_delta_t_def a_up gap_up using af_up half
    by (rule at_least_fmul) (simp_all add: rd_half_next_above_two_m53 [simplified])
  then have dt_up: "at_least (1 / 2 ^ 54 + 1 / 2 ^ 106) (observe_d_delta_t tm (Fin 1) (Fin 1))"
    by simp
  have sum_up: "at_least (1 / 2 + 1 / 2 ^ 53)
      (fadd (d_trust tm) (observe_d_delta_t tm (Fin 1) (Fin 1)))"
    unfolding t using half dt_up by (rule at_least_fadd) (rule rd_above_midpoint)
  from clamp_at_least [OF sum_up] obtain t1 where
    t1: "pymax (Fin 0) (pymin (Fin 1)
           (fadd (d_trust tm) (observe_d_delta_t tm (Fin 1) (Fin 1)))) = Fin t1"
      "min 1 (1 / 2 + 1 / 2 ^ 53) \<le> t1"
    by auto
  from t1(2) have "1 / 2 < t1" by simp
  then have inc: "flt (d_trust tm) (d_trust (snd (observe_d tm (Fin 1) (Fin 1))))"
    using fin_up by (simp add: observe_d_def b_up t1(1) [unfolded t] t)
  have ok_up: "fst (observe_d tm (Fin 1) (Fin 1)) = Inr ()"
    using fin_up by (simp add: observe_d_def b_up)
  (* reward -1.0 *)
  have b_dn: "observe_d_betrayals tm (Fin (- 1)) = d_betrayals tm + 1"
    by (simp add: observe_d_betrayals_def t)
  have a_dn: "observe_d_alpha tm (Fin (- 1)) = Fin an"
    by (simp add: observe_d_alpha_def t an(1))
  from n have n_dn: "0 \<le> d_betrayals tm + 1" "d_betrayals tm + 1 \<le> 2 ^ 1023" by simp_all
  from int_to_double_nonneg [OF n_dn] have fin_dn: "isfinite (int_to_double (d_betrayals tm + 1))"
    by auto
  have ramp_dn: "at_least 1 (observe_d_ramp tm (Fin (- 1)))"
    unfolding observe_d_ramp_def b_dn dl(1) using n_dn dl(2) by (rule ramp_at_least_one)
  have "at_least (1 * 1) (observe_d_factor tm (Fin (- 1)) (Fin 1))"
    unfolding observe_d_factor_def using one ramp_dn
    by (rule at_least_fmul) (simp_all add: rd_1)
  then have factor_dn: "at_least 1 (observe_d_factor tm (Fin (- 1)) (Fin 1))" by simp
  have "at_least (1 / 2 ^ 53) (Fin an)" using an(2) by (simp add: at_least_def)
  then have "at_least (1 / 2 ^ 53 * 1) (fmul (Fin an) (observe_d_factor tm (Fin (- 1)) (Fin 1)))"
    using factor_dn by (rule at_least_fmul) (simp_all add: rd_two_m53 [simplified])
  then have af_dn: "at_least (1 / 2 ^ 53) (fmul (Fin an) (observe_d_factor tm (Fin (- 1)) (Fin 1)))"
    by simp
  have gap_dn: "fsub (Fin (- 1)) (d_trust tm) = Fin (- (3 / 2))"
    using rd_minus_three_halves by (simp add: fsub_def t)
  have "at_most (1 / 2 ^ 53 * - (3 / 2)) (observe_d_delta_t tm (Fin (- 1)) (Fin 1))"
    unfolding observe_d_delta_t_def a_dn gap_dn using af_dn
    by (rule at_most_fmul_neg) (simp_all add: rd_minus_three_quarter_eps [simplified])
  then have dt_dn: "at_most (- (3 / 2 ^ 54)) (observe_d_delta_t tm (Fin (- 1)) (Fin 1))" by simp
  have "at_most (1 / 2 + - (3 / 2 ^ 54))
      (fadd (Fin (1 / 2)) (observe_d_delta_t tm (Fin (- 1)) (Fin 1)))"
    using _ dt_dn by (rule at_most_fadd) (simp_all add: rd_below_half [simplified])
  from clamp_at_most [OF this] obtain t2 where
    t2: "pymax (Fin 0) (pymin (Fin 1)
           (fadd (Fin (1 / 2)) (observe_d_delta_t tm (Fin (- 1)) (Fin 1)))) = Fin t2"
      "t2 \<le> max 0 (1 / 2 + - (3 / 2 ^ 54))"
    by auto
  from t2(2) have "t2 < 1 / 2" by simp
  then have dec: "flt (d_trust (snd (observe_d tm (Fin (- 1)) (Fin 1)))) (d_trust tm)"
    using fin_dn by (simp add: observe_d_def b_dn t2(1) t)
  have ok_dn: "fst (observe_d tm (Fin (- 1)) (Fin 1)) = Inr ()"
    using fin_dn by (simp add: observe_d_def b_dn)
  from ok_up inc ok_dn dec show ?thesis by blast
qed

theorem directionality_in_doubles_witness:
  "d_trust (new_TrustMeter_d (Fin (1 / 2)) ALPHA_POS_d ALPHA_NEG_d DELTA_d 0) = Fin (1 / 2) \<and>
   d_alpha_pos (new_TrustMeter_d (Fin (1 / 2)) ALPHA_POS_d ALPHA_NEG_d DELTA_d 0) = Fin (3602879701896397 / 2 ^ 56) \<and>
   d_alpha_neg (new_TrustMeter_d (Fin (1 / 2)) ALPHA_POS_d ALPHA_NEG_d DELTA_d 0) = Fin (1 / 2) \<and>
   d_delta (new_TrustMeter_d (Fin (1 / 2)) ALPHA_POS_d ALPHA_NEG_d DELTA_d 0) = Fin (5404319552844595 / 2 ^ 54) \<and>
   d_betrayals (new_TrustMeter_d (Fin (1 / 2)) ALPHA_POS_d ALPHA_NEG_d DELTA_d 0) = 0 \<and>
   fst (observe_d (new_TrustMeter_d (Fin (1 / 2)) ALPHA_POS_d ALPHA_NEG_d DELTA_d 0) (Fin 1) (Fin 1)) = Inr () \<and>
   flt (d_trust (new_TrustMeter_d (Fin (1 / 2)) ALPHA_POS_d ALPHA_NEG_d DELTA_d 0)) (d_trust (snd (observe_d (new_TrustMeter_d (Fin (1 / 2)) ALPHA_POS_d ALPHA_NEG_d DELTA_d 0) (Fin 1) (Fin 1)))) \<and>
   fst (observe_d (new_TrustMeter_d (Fin (1 / 2)) ALPHA_POS_d ALPHA_NEG_d DELTA_d 0) (Fin (- 1)) (Fin 1)) = Inr () \<and>
   flt (d_trust (snd (observe_d (new_TrustMeter_d (Fin (1 / 2)) ALPHA_POS_d ALPHA_NEG_d DELTA_d 0) (Fin (- 1)) (Fin 1)))) (d_trust (new_TrustMeter_d (Fin (1 / 2)) ALPHA_POS_d ALPHA_NEG_d DELTA_d 0))"
proof -
  have rep: "round_double (3602879701896397 / 2 ^ 56) = Fin (3602879701896397 / 2 ^ 56)"
    using round_double_frac [of 3602879701896397 56] by simp
  have h: "d_trust (new_TrustMeter_d (Fin (1 / 2)) ALPHA_POS_d ALPHA_NEG_d DELTA_d 0) = Fin (1 / 2)"
    "d_alpha_pos (new_TrustMeter_d (Fin (1 / 2)) ALPHA_POS_d ALPHA_NEG_d DELTA_d 0) = Fin (3602879701896397 / 2 ^ 56)"
    "round_double (3602879701896397 / 2 ^ 56) = Fin (3602879701896397 / 2 ^ 56)"
    "1 / 2 ^ 53 < (3602879701896397 / 2 ^ 56 :: real)"
    "(3602879701896397 / 2 ^ 56 :: real) \<le> 1"
    "d_alpha_neg (new_TrustMeter_d (Fin (1 / 2)) ALPHA_POS_d ALPHA_NEG_d DELTA_d 0) = Fin (1 / 2)"
    "1 / 2 ^ 53 < (1 / 2 :: real)"
    "(1 / 2 :: real) \<le> 1"
    "d_delta (new_TrustMeter_d (Fin (1 / 2)) ALPHA_POS_d ALPHA_NEG_d DELTA_d 0) = Fin (5404319552844595 / 2 ^ 54)"
    "0 \<le> (5404319552844595 / 2 ^ 54 :: real)"
    "0 \<le> d_betrayals (new_TrustMeter_d (Fin (1 / 2)) ALPHA_POS_d ALPHA_NEG_d DELTA_d 0)"
    "d_betrayals (new_TrustMeter_d (Fin (1 / 2)) ALPHA_POS_d ALPHA_NEG_d DELTA_d 0) < 2 ^ 1023"
    using rep
    by (simp_all add: new_TrustMeter_d_def ALPHA_POS_d_value ALPHA_NEG_d_value DELTA_d_value)
  from directionality_in_doubles [OF h] h(1,2,6,9) show ?thesis
    by (simp add: new_TrustMeter_d_def)
qed

subsection \<open>Severity\<close>

text \<open>
  C9 as stated fails in two ways. On a meter built with \<open>theta = 1.5\<close>,
  \<open>observe(0.5, 0.0)\<close> moves the trust from 1.5 to 1.0: the clamp is applied to
  \<open>trust + 0\<close>. And with the finite \<open>delta = 2 ^ 1023\<close> and trust 0.5, a first
  \<open>observe(-1.0, 0.0)\<close> leaves the trust at 0.5, but in the second one \<open>2 * delta\<close>
  overflows to \<open>inf\<close>, \<open>0.0 * inf\<close> is NaN, \<open>min(1.0, nan)\<close> is 1.0, and the trust
  becomes 1.0.
\<close>

theorem zero_severity_counterexample:
  "\<not> feq (Fin (1 / 2)) (Fin 0) \<and>
   flt (Fin (1 / 2)) (d_trust (new_TrustMeter_d (Fin (3 / 2)) (Fin (1 / 2)) (Fin (1 / 2)) (Fin (1 / 2)) 0)) \<and>
   fst (observe_d (new_TrustMeter_d (Fin (3 / 2)) (Fin (1 / 2)) (Fin (1 / 2)) (Fin (1 / 2)) 0) (Fin (1 / 2)) (Fin 0)) = Inr () \<and>
   d_trust (new_TrustMeter_d (Fin (3 / 2)) (Fin (1 / 2)) (Fin (1 / 2)) (Fin (1 / 2)) 0) = Fin (3 / 2) \<and>
   d_trust (snd (observe_d (new_TrustMeter_d (Fin (3 / 2)) (Fin (1 / 2)) (Fin (1 / 2)) (Fin (1 / 2)) 0) (Fin (1 / 2)) (Fin 0))) = Fin 1 \<and>
   \<not> feq (Fin (- 1)) (Fin 0) \<and>
   flt (Fin (- 1)) (d_trust (new_TrustMeter_d (Fin (1 / 2)) (Fin (1 / 2)) (Fin (1 / 2)) (Fin (2 ^ 1023)) 0)) \<and>
   fst (observe_d (new_TrustMeter_d (Fin (1 / 2)) (Fin (1 / 2)) (Fin (1 / 2)) (Fin (2 ^ 1023)) 0) (Fin (- 1)) (Fin 0)) = Inr () \<and>
   d_trust (new_TrustMeter_d (Fin (1 / 2)) (Fin (1 / 2)) (Fin (1 / 2)) (Fin (2 ^ 1023)) 0) = Fin (1 / 2) \<and>
   d_trust (snd (observe_d (new_TrustMeter_d (Fin (1 / 2)) (Fin (1 / 2)) (Fin (1 / 2)) (Fin (2 ^ 1023)) 0) (Fin (- 1)) (Fin 0))) = Fin (1 / 2) \<and>
   flt (Fin (- 1)) (d_trust (snd (observe_d (new_TrustMeter_d (Fin (1 / 2)) (Fin (1 / 2)) (Fin (1 / 2)) (Fin (2 ^ 1023)) 0) (Fin (- 1)) (Fin 0)))) \<and>
   fst (observe_d (snd (observe_d (new_TrustMeter_d (Fin (1 / 2)) (Fin (1 / 2)) (Fin (1 / 2)) (Fin (2 ^ 1023)) 0) (Fin (- 1)) (Fin 0))) (Fin (- 1)) (Fin 0)) = Inr () \<and>
   d_trust (snd (observe_d (snd (observe_d (new_TrustMeter_d (Fin (1 / 2)) (Fin (1 / 2)) (Fin (1 / 2)) (Fin (2 ^ 1023)) 0) (Fin (- 1)) (Fin 0))) (Fin (- 1)) (Fin 0))) = Fin 1"
  by (simp add: observe_d_defs rd_small rd_big [simplified] rd_big_plus_one [simplified]
      rd_overflow [simplified])

text \<open>
  C9, amended. \<open>observe\<close> does not check the severity: in any state whose betrayal
  counter is in \<open>[-2 ^ 1023, 2 ^ 1023)\<close> and for any non-zero reward it returns normally
  for every severity. With a reward strictly below the current trust and severity 0.0
  it adds 1 to the betrayal counter; it then leaves the trust unchanged when the
  current trust lies in \<open>[0, 1]\<close> and nothing overflows, that is when \<open>alpha_neg\<close>,
  \<open>1 + n * delta\<close> and \<open>reward - trust\<close> are finite. With a negated severity the
  change \<open>delta_t\<close> is negated (before clamping), and that negated change is what is
  added to the trust and clamped.
\<close>

theorem severity_unchecked_in_doubles:
  assumes nz: "\<not> feq reward (Fin 0)"
    and n: "- (2 ^ 1023) \<le> d_betrayals tm" "d_betrayals tm < 2 ^ 1023"
  shows "fst (observe_d tm reward severity) = Inr () \<and>
         (flt reward (d_trust tm) \<longrightarrow>
            d_betrayals (snd (observe_d tm reward (Fin 0))) = d_betrayals tm + 1 \<and>
            (d_trust tm = Fin t \<and> 0 \<le> t \<and> t \<le> 1 \<and> round_double t = Fin t \<and>
             isfinite (d_alpha_neg tm) \<and> isfinite (observe_d_ramp tm reward) \<and>
             isfinite (fsub reward (d_trust tm)) \<longrightarrow>
               d_trust (snd (observe_d tm reward (Fin 0))) = d_trust tm)) \<and>
         observe_d_delta_t tm reward (fneg severity) = fneg (observe_d_delta_t tm reward severity) \<and>
         d_trust (snd (observe_d tm reward (fneg severity))) =
           pymax (Fin 0) (pymin (Fin 1)
             (fadd (d_trust tm) (fneg (observe_d_delta_t tm reward severity))))"
proof -
  have range: "- (2 ^ 1023) \<le> observe_d_betrayals tm reward"
    "observe_d_betrayals tm reward \<le> 2 ^ 1023"
    using n by (simp_all add: observe_d_betrayals_def)
  have conv: "isfinite (int_to_double (observe_d_betrayals tm reward))"
    using range by (rule int_to_double_finite)
  have ok: "fst (observe_d tm reward severity) = Inr ()" for severity
    using nz conv by (simp add: observe_d_def)
  have stored: "d_trust (snd (observe_d tm reward severity)) =
      pymax (Fin 0) (pymin (Fin 1) (fadd (d_trust tm) (observe_d_delta_t tm reward severity)))"
    for severity
    using nz conv by (simp add: observe_d_def)
  have count: "d_betrayals (snd (observe_d tm reward (Fin 0))) = d_betrayals tm + 1"
    if "flt reward (d_trust tm)"
    using nz conv that by (simp add: observe_d_def observe_d_betrayals_def)
  have same: "d_trust (snd (observe_d tm reward (Fin 0))) = d_trust tm"
    if neg: "flt reward (d_trust tm)"
      and h: "d_trust tm = Fin t \<and> 0 \<le> t \<and> t \<le> 1 \<and> round_double t = Fin t \<and>
        isfinite (d_alpha_neg tm) \<and> isfinite (observe_d_ramp tm reward) \<and>
        isfinite (fsub reward (d_trust tm))"
  proof -
    from h obtain a f g where a: "d_alpha_neg tm = Fin a"
      and f: "observe_d_ramp tm reward = Fin f"
      and g: "fsub reward (d_trust tm) = Fin g"
      by (cases "d_alpha_neg tm"; cases "observe_d_ramp tm reward";
          cases "fsub reward (d_trust tm)") simp_all
    from neg have al: "observe_d_alpha tm reward = Fin a"
      by (simp add: observe_d_alpha_def flt_asym a)
    have zero: "observe_d_delta_t tm reward (Fin 0) = Fin 0"
      by (simp add: observe_d_delta_t_def observe_d_factor_def al f g rd_0)
    from h have "pymax (Fin 0) (pymin (Fin 1) (fadd (Fin t) (Fin 0))) = Fin t"
      by (auto simp: pymax_def pymin_def)
    with h show ?thesis by (simp add: stored zero)
  qed
  have neg_dt: "observe_d_delta_t tm reward (fneg severity) =
      fneg (observe_d_delta_t tm reward severity)"
    by (simp add: observe_d_delta_t_def observe_d_factor_def fmul_fneg_left fmul_fneg_right)
  have neg_stored: "d_trust (snd (observe_d tm reward (fneg severity))) =
      pymax (Fin 0) (pymin (Fin 1)
        (fadd (d_trust tm) (fneg (observe_d_delta_t tm reward severity))))"
    by (simp only: stored neg_dt)
  from ok count same neg_dt neg_stored show ?thesis by blast
qed

theorem severity_unchecked_in_doubles_witness:
  "\<not> feq (Fin (- 1)) (Fin 0) \<and>
   - (2 ^ 1023) \<le> d_betrayals (new_TrustMeter_d (Fin (1 / 2)) (Fin (1 / 2)) (Fin (1 / 2)) (Fin (1 / 2)) 0) \<and> d_betrayals (new_TrustMeter_d (Fin (1 / 2)) (Fin (1 / 2)) (Fin (1 / 2)) (Fin (1 / 2)) 0) < 2 ^ 1023 \<and>
   flt (Fin (- 1)) (d_trust (new_TrustMeter_d (Fin (1 / 2)) (Fin (1 / 2)) (Fin (1 / 2)) (Fin (1 / 2)) 0)) \<and>
   d_trust (new_TrustMeter_d (Fin (1 / 2)) (Fin (1 / 2)) (Fin (1 / 2)) (Fin (1 / 2)) 0) = Fin (1 / 2) \<and> round_double (1 / 2) = Fin (1 / 2) \<and>
   isfinite (d_alpha_neg (new_TrustMeter_d (Fin (1 / 2)) (Fin (1 / 2)) (Fin (1 / 2)) (Fin (1 / 2)) 0)) \<and> isfinite (observe_d_ramp (new_TrustMeter_d (Fin (1 / 2)) (Fin (1 / 2)) (Fin (1 / 2)) (Fin (1 / 2)) 0) (Fin (- 1))) \<and>
   isfinite (fsub (Fin (- 1)) (d_trust (new_TrustMeter_d (Fin (1 / 2)) (Fin (1 / 2)) (Fin (1 / 2)) (Fin (1 / 2)) 0))) \<and>
   fst (observe_d (new_TrustMeter_d (Fin (1 / 2)) (Fin (1 / 2)) (Fin (1 / 2)) (Fin (1 / 2)) 0) (Fin (- 1)) (Fin (1 / 8))) = Inr () \<and>
   d_betrayals (snd (observe_d (new_TrustMeter_d (Fin (1 / 2)) (Fin (1 / 2)) (Fin (1 / 2)) (Fin (1 / 2)) 0) (Fin (- 1)) (Fin 0))) = d_betrayals (new_TrustMeter_d (Fin (1 / 2)) (Fin (1 / 2)) (Fin (1 / 2)) (Fin (1 / 2)) 0) + 1 \<and>
   d_trust (snd (observe_d (new_TrustMeter_d (Fin (1 / 2)) (Fin (1 / 2)) (Fin (1 / 2)) (Fin (1 / 2)) 0) (Fin (- 1)) (Fin 0))) = d_trust (new_TrustMeter_d (Fin (1 / 2)) (Fin (1 / 2)) (Fin (1 / 2)) (Fin (1 / 2)) 0) \<and>
   observe_d_delta_t (new_TrustMeter_d (Fin (1 / 2)) (Fin (1 / 2)) (Fin (1 / 2)) (Fin (1 / 2)) 0) (Fin (- 1)) (Fin (1 / 8)) = Fin (- (9 / 64)) \<and>
   observe_d_delta_t (new_TrustMeter_d (Fin (1 / 2)) (Fin (1 / 2)) (Fin (1 / 2)) (Fin (1 / 2)) 0) (Fin (- 1)) (fneg (Fin (1 / 8))) = Fin (9 / 64) \<and>
   d_trust (snd (observe_d (new_TrustMeter_d (Fin (1 / 2)) (Fin (1 / 2)) (Fin (1 / 2)) (Fin (1 / 2)) 0) (Fin (- 1)) (fneg (Fin (1 / 8))))) = Fin (41 / 64)"
proof -
  have h: "\<not> feq (Fin (- 1)) (Fin 0)"
    "- (2 ^ 1023) \<le> d_betrayals (new_TrustMeter_d (Fin (1 / 2)) (Fin (1 / 2)) (Fin (1 / 2)) (Fin (1 / 2)) 0)" "d_betrayals (new_TrustMeter_d (Fin (1 / 2)) (Fin (1 / 2)) (Fin (1 / 2)) (Fin (1 / 2)) 0) < 2 ^ 1023"
    by (simp_all add: new_TrustMeter_d_def)
  have neg: "flt (Fin (- 1)) (d_trust (new_TrustMeter_d (Fin (1 / 2)) (Fin (1 / 2)) (Fin (1 / 2)) (Fin (1 / 2)) 0))"
    by (simp add: new_TrustMeter_d_def)
  have pre: "d_trust (new_TrustMeter_d (Fin (1 / 2)) (Fin (1 / 2)) (Fin (1 / 2)) (Fin (1 / 2)) 0) = Fin (1 / 2) \<and> 0 \<le> (1 / 2 :: real) \<and> (1 / 2 :: real) \<le> 1 \<and>
     round_double (1 / 2) = Fin (1 / 2) \<and>
     isfinite (d_alpha_neg (new_TrustMeter_d (Fin (1 / 2)) (Fin (1 / 2)) (Fin (1 / 2)) (Fin (1 / 2)) 0)) \<and> isfinite (observe_d_ramp (new_TrustMeter_d (Fin (1 / 2)) (Fin (1 / 2)) (Fin (1 / 2)) (Fin (1 / 2)) 0) (Fin (- 1))) \<and>
     isfinite (fsub (Fin (- 1)) (d_trust (new_TrustMeter_d (Fin (1 / 2)) (Fin (1 / 2)) (Fin (1 / 2)) (Fin (1 / 2)) 0)))"
    by (simp add: observe_d_defs rd_small)
  have dt: "observe_d_delta_t (new_TrustMeter_d (Fin (1 / 2)) (Fin (1 / 2)) (Fin (1 / 2)) (Fin (1 / 2)) 0) (Fin (- 1)) (Fin (1 / 8)) = Fin (- (9 / 64))"
    by (simp add: observe_d_defs rd_small)
  note inst = severity_unchecked_in_doubles [OF h, of "Fin (1 / 8)" "1 / 2"]
  from inst have ok: "fst (observe_d (new_TrustMeter_d (Fin (1 / 2)) (Fin (1 / 2)) (Fin (1 / 2)) (Fin (1 / 2)) 0) (Fin (- 1)) (Fin (1 / 8))) = Inr ()" by blast
  from inst neg have cnt:
    "d_betrayals (snd (observe_d (new_TrustMeter_d (Fin (1 / 2)) (Fin (1 / 2)) (Fin (1 / 2)) (Fin (1 / 2)) 0) (Fin (- 1)) (Fin 0))) = d_betrayals (new_TrustMeter_d (Fin (1 / 2)) (Fin (1 / 2)) (Fin (1 / 2)) (Fin (1 / 2)) 0) + 1" by blast
  from inst neg pre have same:
    "d_trust (snd (observe_d (new_TrustMeter_d (Fin (1 / 2)) (Fin (1 / 2)) (Fin (1 / 2)) (Fin (1 / 2)) 0) (Fin (- 1)) (Fin 0))) = d_trust (new_TrustMeter_d (Fin (1 / 2)) (Fin (1 / 2)) (Fin (1 / 2)) (Fin (1 / 2)) 0)" by blast
  from inst have "observe_d_delta_t (new_TrustMeter_d (Fin (1 / 2)) (Fin (1 / 2)) (Fin (1 / 2)) (Fin (1 / 2)) 0) (Fin (- 1)) (fneg (Fin (1 / 8))) =
      fneg (observe_d_delta_t (new_TrustMeter_d (Fin (1 / 2)) (Fin (1 / 2)) (Fin (1 / 2)) (Fin (1 / 2)) 0) (Fin (- 1)) (Fin (1 / 8)))" by blast
  then have ndt: "observe_d_delta_t (new_TrustMeter_d (Fin (1 / 2)) (Fin (1 / 2)) (Fin (1 / 2)) (Fin (1 / 2)) 0) (Fin (- 1)) (fneg (Fin (1 / 8))) = Fin (9 / 64)"
    by (simp only: dt fneg.simps minus_minus)
  from inst have "d_trust (snd (observe_d (new_TrustMeter_d (Fin (1 / 2)) (Fin (1 / 2)) (Fin (1 / 2)) (Fin (1 / 2)) 0) (Fin (- 1)) (fneg (Fin (1 / 8))))) =
      pymax (Fin 0) (pymin (Fin 1)
        (fadd (d_trust (new_TrustMeter_d (Fin (1 / 2)) (Fin (1 / 2)) (Fin (1 / 2)) (Fin (1 / 2)) 0)) (fneg (observe_d_delta_t (new_TrustMeter_d (Fin (1 / 2)) (Fin (1 / 2)) (Fin (1 / 2)) (Fin (1 / 2)) 0) (Fin (- 1)) (Fin (1 / 8))))))"
    by blast
  then have st: "d_trust (snd (observe_d (new_TrustMeter_d (Fin (1 / 2)) (Fin (1 / 2)) (Fin (1 / 2)) (Fin (1 / 2)) 0) (Fin (- 1)) (fneg (Fin (1 / 8))))) = Fin (41 / 64)"
    by (simp only: dt fneg.simps minus_minus)
      (simp add: new_TrustMeter_d_def rd_small pymax_def pymin_def)
  from h neg pre ok cnt same dt ndt st show ?thesis by blast
qed

subsection \<open>Escalation\<close>

text \<open>
  C3 as stated fails. On a meter with trust 0, two successive \<open>observe(-1.0)\<close> calls
  are both negative surprises with the same gap \<open>reward - trust = -1\<close>, all else
  equal; the counter goes from 0 to 1 to 2 and the trust is clamped to 0 both times:
  both decreases are 0, and the second is not strictly larger. Away from the clamp,
  with \<open>delta = 2 ^ -60\<close> the factor \<open>1 + n * delta\<close> rounds to 1.0 in both of two
  successive \<open>observe(0.5)\<close> calls from trust 1.0: the count grows but the factor does
  not, and the decreases are 0.25 and then 0.125.
\<close>

theorem escalation_counterexample:
  "flt (Fin (- 1)) (d_trust (new_TrustMeter_d (Fin 0) (Fin (1 / 2)) (Fin (1 / 2)) (Fin (1 / 2)) 0)) \<and>
   fst (observe_d (new_TrustMeter_d (Fin 0) (Fin (1 / 2)) (Fin (1 / 2)) (Fin (1 / 2)) 0) (Fin (- 1)) (Fin 1)) = Inr () \<and>
   flt (Fin (- 1)) (d_trust (snd (observe_d (new_TrustMeter_d (Fin 0) (Fin (1 / 2)) (Fin (1 / 2)) (Fin (1 / 2)) 0) (Fin (- 1)) (Fin 1)))) \<and>
   fst (observe_d (snd (observe_d (new_TrustMeter_d (Fin 0) (Fin (1 / 2)) (Fin (1 / 2)) (Fin (1 / 2)) 0) (Fin (- 1)) (Fin 1))) (Fin (- 1)) (Fin 1)) = Inr () \<and>
   d_betrayals (snd (observe_d (new_TrustMeter_d (Fin 0) (Fin (1 / 2)) (Fin (1 / 2)) (Fin (1 / 2)) 0) (Fin (- 1)) (Fin 1))) = 1 \<and>
   d_betrayals (snd (observe_d (snd (observe_d (new_TrustMeter_d (Fin 0) (Fin (1 / 2)) (Fin (1 / 2)) (Fin (1 / 2)) 0) (Fin (- 1)) (Fin 1))) (Fin (- 1)) (Fin 1))) = 2 \<and>
   d_trust (new_TrustMeter_d (Fin 0) (Fin (1 / 2)) (Fin (1 / 2)) (Fin (1 / 2)) 0) = Fin 0 \<and>
   d_trust (snd (observe_d (new_TrustMeter_d (Fin 0) (Fin (1 / 2)) (Fin (1 / 2)) (Fin (1 / 2)) 0) (Fin (- 1)) (Fin 1))) = Fin 0 \<and>
   d_trust (snd (observe_d (snd (observe_d (new_TrustMeter_d (Fin 0) (Fin (1 / 2)) (Fin (1 / 2)) (Fin (1 / 2)) 0) (Fin (- 1)) (Fin 1))) (Fin (- 1)) (Fin 1))) = Fin 0 \<and>
   \<not> flt (d_trust (snd (observe_d (snd (observe_d (new_TrustMeter_d (Fin 0) (Fin (1 / 2)) (Fin (1 / 2)) (Fin (1 / 2)) 0) (Fin (- 1)) (Fin 1))) (Fin (- 1)) (Fin 1))))
         (d_trust (snd (observe_d (new_TrustMeter_d (Fin 0) (Fin (1 / 2)) (Fin (1 / 2)) (Fin (1 / 2)) 0) (Fin (- 1)) (Fin 1)))) \<and>
   flt (Fin (1 / 2)) (d_trust (new_TrustMeter_d (Fin 1) (Fin (1 / 2)) (Fin (1 / 2)) (Fin (1 / 2 ^ 60)) 0)) \<and>
   fst (observe_d (new_TrustMeter_d (Fin 1) (Fin (1 / 2)) (Fin (1 / 2)) (Fin (1 / 2 ^ 60)) 0) (Fin (1 / 2)) (Fin 1)) = Inr () \<and>
   flt (Fin (1 / 2)) (d_trust (snd (observe_d (new_TrustMeter_d (Fin 1) (Fin (1 / 2)) (Fin (1 / 2)) (Fin (1 / 2 ^ 60)) 0) (Fin (1 / 2)) (Fin 1)))) \<and>
   fst (observe_d (snd (observe_d (new_TrustMeter_d (Fin 1) (Fin (1 / 2)) (Fin (1 / 2)) (Fin (1 / 2 ^ 60)) 0) (Fin (1 / 2)) (Fin 1))) (Fin (1 / 2)) (Fin 1)) = Inr () \<and>
   observe_d_factor (new_TrustMeter_d (Fin 1) (Fin (1 / 2)) (Fin (1 / 2)) (Fin (1 / 2 ^ 60)) 0) (Fin (1 / 2)) (Fin 1) = Fin 1 \<and>
   observe_d_factor (snd (observe_d (new_TrustMeter_d (Fin 1) (Fin (1 / 2)) (Fin (1 / 2)) (Fin (1 / 2 ^ 60)) 0) (Fin (1 / 2)) (Fin 1))) (Fin (1 / 2)) (Fin 1) = Fin 1 \<and>
   d_trust (new_TrustMeter_d (Fin 1) (Fin (1 / 2)) (Fin (1 / 2)) (Fin (1 / 2 ^ 60)) 0) = Fin 1 \<and>
   d_trust (snd (observe_d (new_TrustMeter_d (Fin 1) (Fin (1 / 2)) (Fin (1 / 2)) (Fin (1 / 2 ^ 60)) 0) (Fin (1 / 2)) (Fin 1))) = Fin (3 / 4) \<and>
   d_trust (snd (observe_d (snd (observe_d (new_TrustMeter_d (Fin 1) (Fin (1 / 2)) (Fin (1 / 2)) (Fin (1 / 2 ^ 60)) 0) (Fin (1 / 2)) (Fin 1))) (Fin (1 / 2)) (Fin 1))) =
     Fin (5 / 8) \<and>
   \<not> ((1 :: real) - 3 / 4 < 3 / 4 - 5 / 8)"
  by (simp add: observe_d_defs rd_small rd_absorbed_60 [simplified] rd_absorbed_59 [simplified])

text \<open>
  C3, amended. Take two successive \<open>observe\<close> calls with the same finite non-zero
  reward and the same severity \<open>\<ge> 0\<close>, both negative surprises, on a meter with
  finite \<open>alpha_neg \<ge> 0\<close>, finite \<open>delta \<ge> 0\<close> and a betrayal counter \<open>n \<ge> 0\<close>,
  the \<open>delta_t\<close> of the second call being finite. The first call computes its change
  with the count \<open>n + 1\<close> and the second with \<open>n + 2\<close>. All else equal, the decrease
  does not shrink: the second call lowers the trust by at least as much as the same
  call would from the same trust with the count the first call used. (It need not be
  strictly more: the result is clamped and rounded.)
\<close>

theorem escalation_all_else_equal:
  assumes first: "observe_d tm (Fin r) (Fin sv) = (Inr (), tm1)"
    and s1: "flt (Fin r) (d_trust tm)"
    and s2: "flt (Fin r) (d_trust tm1)"
    and r0: "r \<noteq> 0"
    and sv: "0 \<le> sv"
    and an: "d_alpha_neg tm = Fin an" "0 \<le> an"
    and dl: "d_delta tm = Fin dl" "0 \<le> dl"
    and n: "0 \<le> d_betrayals tm" "d_betrayals tm + 2 \<le> 2 ^ 1023"
    and fin: "isfinite (observe_d_delta_t tm1 (Fin r) (Fin sv))"
  shows "d_betrayals tm1 = d_betrayals tm + 1 \<and>
         d_trust tm1 =
           pymax (Fin 0) (pymin (Fin 1) (fadd (d_trust tm)
             (fmul (fmul (Fin an) (fmul (Fin sv)
                (fadd (Fin 1) (fmul (int_to_double (d_betrayals tm + 1)) (Fin dl)))))
              (fsub (Fin r) (d_trust tm))))) \<and>
         fst (observe_d tm1 (Fin r) (Fin sv)) = Inr () \<and>
         d_betrayals (snd (observe_d tm1 (Fin r) (Fin sv))) = d_betrayals tm + 2 \<and>
         d_trust (snd (observe_d tm1 (Fin r) (Fin sv))) =
           pymax (Fin 0) (pymin (Fin 1) (fadd (d_trust tm1)
             (fmul (fmul (Fin an) (fmul (Fin sv)
                (fadd (Fin 1) (fmul (int_to_double (d_betrayals tm + 2)) (Fin dl)))))
              (fsub (Fin r) (d_trust tm1))))) \<and>
         (\<exists>t1 a b.
            d_trust tm1 = Fin t1 \<and>
            d_trust (snd (observe_d (tm1\<lparr>d_betrayals := d_betrayals tm\<rparr>) (Fin r) (Fin sv))) = Fin a \<and>
            d_trust (snd (observe_d tm1 (Fin r) (Fin sv))) = Fin b \<and>
            0 \<le> t1 - a \<and> t1 - a \<le> t1 - b)"
proof -
  have nz: "\<not> feq (Fin r) (Fin 0)" using r0 by simp
  (* the first call *)
  have b1: "observe_d_betrayals tm (Fin r) = d_betrayals tm + 1"
    using s1 by (simp add: observe_d_betrayals_def)
  have al1: "observe_d_alpha tm (Fin r) = Fin an"
    using s1 by (simp add: observe_d_alpha_def flt_asym an(1))
  from first nz have tm1: "tm1 = tm\<lparr>d_betrayals := d_betrayals tm + 1,
      d_trust := pymax (Fin 0) (pymin (Fin 1)
        (fadd (d_trust tm) (observe_d_delta_t tm (Fin r) (Fin sv))))\<rparr>"
    by (simp add: observe_d_def b1 split: if_splits)
  have c1: "d_betrayals tm1 = d_betrayals tm + 1" by (simp add: tm1)
  have an1: "d_alpha_neg tm1 = Fin an" by (simp add: tm1 an(1))
  have dl1: "d_delta tm1 = Fin dl" by (simp add: tm1 dl(1))
  have tr1: "d_trust tm1 = pymax (Fin 0) (pymin (Fin 1)
      (fadd (d_trust tm) (observe_d_delta_t tm (Fin r) (Fin sv))))"
    by (simp add: tm1)
  have dt1: "observe_d_delta_t tm (Fin r) (Fin sv) =
      fmul (fmul (Fin an) (fmul (Fin sv)
        (fadd (Fin 1) (fmul (int_to_double (d_betrayals tm + 1)) (Fin dl)))))
      (fsub (Fin r) (d_trust tm))"
    by (simp add: observe_d_delta_t_def observe_d_factor_def observe_d_ramp_def b1 al1 dl(1))
  from clamp_fin obtain t1 where t1: "d_trust tm1 = Fin t1"
    unfolding tr1 by blast
  from clamp_fadd_representable [OF t1 [unfolded tr1]]
  have t1r: "round_grid t1 = t1" "0 \<le> t1" "t1 \<le> 1" by simp_all
  from s2 t1 have rt: "r < t1" by simp
  (* the second call, and the same call with the count of before the first *)
  let ?tmA = "tm1\<lparr>d_betrayals := d_betrayals tm\<rparr>"
  have bB: "observe_d_betrayals tm1 (Fin r) = d_betrayals tm + 2"
    using s2 by (simp add: observe_d_betrayals_def c1)
  have bA: "observe_d_betrayals ?tmA (Fin r) = d_betrayals tm + 1"
    using s2 by (simp add: observe_d_betrayals_def)
  have alB: "observe_d_alpha tm1 (Fin r) = Fin an"
    using s2 by (simp add: observe_d_alpha_def flt_asym an1)
  have alA: "observe_d_alpha ?tmA (Fin r) = Fin an"
    using s2 by (simp add: observe_d_alpha_def flt_asym an1)
  from n have nB: "0 \<le> d_betrayals tm + 2" "d_betrayals tm + 2 \<le> 2 ^ 1023" by simp_all
  from n have nA: "0 \<le> d_betrayals tm + 1" "d_betrayals tm + 1 \<le> 2 ^ 1023" by simp_all
  from int_to_double_nonneg [OF nB] obtain vB where
    vB: "int_to_double (d_betrayals tm + 2) = Fin vB" "0 \<le> vB" by blast
  from int_to_double_nonneg [OF nA] obtain vA where
    vA: "int_to_double (d_betrayals tm + 1) = Fin vA" "0 \<le> vA" by blast
  have "(of_int (d_betrayals tm + 1) :: real) \<le> of_int (d_betrayals tm + 2)" by simp
  then have "round_grid (of_int (d_betrayals tm + 1)) \<le> round_grid (of_int (d_betrayals tm + 2))"
    by (rule round_grid_mono)
  moreover from vA(1) have "round_grid (of_int (d_betrayals tm + 1)) = vA"
    unfolding int_to_double_def by (simp add: round_double_FinD)
  moreover from vB(1) have "round_grid (of_int (d_betrayals tm + 2)) = vB"
    unfolding int_to_double_def by (simp add: round_double_FinD)
  ultimately have vAB: "vA \<le> vB" by simp
  have dtB: "observe_d_delta_t tm1 (Fin r) (Fin sv) =
      fmul (fmul (Fin an) (fmul (Fin sv) (fadd (Fin 1) (fmul (Fin vB) (Fin dl)))))
           (fsub (Fin r) (Fin t1))"
    by (simp add: observe_d_delta_t_def observe_d_factor_def observe_d_ramp_def bB alB dl1 vB(1) t1)
  have dtA: "observe_d_delta_t ?tmA (Fin r) (Fin sv) =
      fmul (fmul (Fin an) (fmul (Fin sv) (fadd (Fin 1) (fmul (Fin vA) (Fin dl)))))
           (fsub (Fin r) (Fin t1))"
    by (simp add: observe_d_delta_t_def observe_d_factor_def observe_d_ramp_def bA alA dl1 vA(1) t1)
  (* no step of the second call overflows *)
  from fin [unfolded dtB] have f1:
    "isfinite (fmul (Fin an) (fmul (Fin sv) (fadd (Fin 1) (fmul (Fin vB) (Fin dl)))))"
    "isfinite (fsub (Fin r) (Fin t1))"
    by (auto dest: isfinite_fmulD)
  from f1(1) have f2: "isfinite (fmul (Fin sv) (fadd (Fin 1) (fmul (Fin vB) (Fin dl))))"
    by (auto dest: isfinite_fmulD)
  then have f3: "isfinite (fadd (Fin 1) (fmul (Fin vB) (Fin dl)))"
    by (auto dest: isfinite_fmulD)
  then have f4: "isfinite (fmul (Fin vB) (Fin dl))"
    by (auto dest: isfinite_faddD)
  from f4 obtain PB where PB: "round_double (vB * dl) = Fin PB"
    by (auto elim: isfiniteE)
  from f3 obtain RB where RB: "round_double (1 + PB) = Fin RB"
    by (auto elim: isfiniteE simp: PB)
  from f2 obtain FB where FB: "round_double (sv * RB) = Fin FB"
    by (auto elim: isfiniteE simp: PB RB)
  from f1(1) obtain AB where AB: "round_double (an * FB) = Fin AB"
    by (auto elim: isfiniteE simp: PB RB FB)
  from f1(2) obtain g where g: "round_double (r - t1) = Fin g"
    by (auto elim: isfiniteE simp: fsub_def)
  from fin [unfolded dtB] obtain DB where DB: "round_double (AB * g) = Fin DB"
    by (auto elim: isfiniteE simp: PB RB FB AB g fsub_def)
  (* the same steps with the smaller count are finite and ordered *)
  have "0 \<le> vA * dl" "vA * dl \<le> vB * dl"
    using vA(2) dl(2) vAB by (simp_all add: mult_right_mono)
  with PB obtain PA where PA: "round_double (vA * dl) = Fin PA" "0 \<le> PA" "PA \<le> PB"
    using round_double_mono_nonneg by blast
  have "0 \<le> 1 + PA" "1 + PA \<le> 1 + PB" using PA(2,3) by simp_all
  with RB obtain RA where RA: "round_double (1 + PA) = Fin RA" "0 \<le> RA" "RA \<le> RB"
    using round_double_mono_nonneg by blast
  have "0 \<le> sv * RA" "sv * RA \<le> sv * RB"
    using sv RA(2,3) by (simp_all add: mult_left_mono)
  with FB obtain FA where FA: "round_double (sv * RA) = Fin FA" "0 \<le> FA" "FA \<le> FB"
    using round_double_mono_nonneg by blast
  have "0 \<le> an * FA" "an * FA \<le> an * FB"
    using an(2) FA(2,3) by (simp_all add: mult_left_mono)
  with AB obtain AA where AA: "round_double (an * FA) = Fin AA" "0 \<le> AA" "AA \<le> AB"
    using round_double_mono_nonneg by blast
  from rt have "r - t1 \<le> 0" by simp
  then have "round_grid (r - t1) \<le> round_grid 0" by (rule round_grid_mono)
  moreover from g have "round_grid (r - t1) = g" by (simp add: round_double_FinD)
  ultimately have g0: "g \<le> 0" by simp
  have "AB * g \<le> AA * g" "AA * g \<le> 0"
    using AA(2,3) g0 by (simp_all add: mult_right_mono_neg mult_nonneg_nonpos)
  with DB obtain DA where DA: "round_double (AA * g) = Fin DA" "DB \<le> DA" "DA \<le> 0"
    using round_double_mono_nonpos by blast
  have dtB': "observe_d_delta_t tm1 (Fin r) (Fin sv) = Fin DB"
    by (simp add: dtB PB RB FB AB g DB fsub_def)
  have dtA': "observe_d_delta_t ?tmA (Fin r) (Fin sv) = Fin DA"
    by (simp add: dtA PA(1) RA(1) FA(1) AA(1) g DA(1) fsub_def)
  (* the stored trusts *)
  have convB: "isfinite (int_to_double (observe_d_betrayals tm1 (Fin r)))"
    by (simp add: bB vB(1))
  have convA: "isfinite (int_to_double (observe_d_betrayals ?tmA (Fin r)))"
    by (simp add: bA vA(1))
  have okB: "fst (observe_d tm1 (Fin r) (Fin sv)) = Inr ()"
    using nz convB by (simp add: observe_d_def)
  have cntB: "d_betrayals (snd (observe_d tm1 (Fin r) (Fin sv))) = d_betrayals tm + 2"
    using nz convB by (simp add: observe_d_def bB)
  have stB: "d_trust (snd (observe_d tm1 (Fin r) (Fin sv))) =
      pymax (Fin 0) (pymin (Fin 1) (fadd (d_trust tm1) (observe_d_delta_t tm1 (Fin r) (Fin sv))))"
    using nz convB by (simp add: observe_d_def)
  have stA: "d_trust (snd (observe_d ?tmA (Fin r) (Fin sv))) =
      pymax (Fin 0) (pymin (Fin 1) (fadd (d_trust tm1) (observe_d_delta_t ?tmA (Fin r) (Fin sv))))"
    using nz convA by (simp add: observe_d_def)
  define b where "b = max 0 (min 1 (round_grid (t1 + DB)))"
  define a where "a = max 0 (min 1 (round_grid (t1 + DA)))"
  have vb: "d_trust (snd (observe_d tm1 (Fin r) (Fin sv))) = Fin b"
    by (simp add: stB dtB' t1 clamp_round b_def)
  have va: "d_trust (snd (observe_d ?tmA (Fin r) (Fin sv))) = Fin a"
    by (simp add: stA dtA' t1 clamp_round a_def)
  have "round_grid (t1 + DB) \<le> round_grid (t1 + DA)"
    using DA(2) by (intro round_grid_mono) simp
  then have ba: "b \<le> a" by (simp add: a_def b_def max_def min_def)
  have "round_grid (t1 + DA) \<le> round_grid t1"
    using DA(3) by (intro round_grid_mono) simp
  with t1r have at: "a \<le> t1" by (simp add: a_def max_def min_def)
  have formB: "d_trust (snd (observe_d tm1 (Fin r) (Fin sv))) =
      pymax (Fin 0) (pymin (Fin 1) (fadd (d_trust tm1)
        (fmul (fmul (Fin an) (fmul (Fin sv)
           (fadd (Fin 1) (fmul (int_to_double (d_betrayals tm + 2)) (Fin dl)))))
         (fsub (Fin r) (d_trust tm1)))))"
    by (simp only: stB dtB vB(1) t1)
  have formA: "d_trust tm1 =
      pymax (Fin 0) (pymin (Fin 1) (fadd (d_trust tm)
        (fmul (fmul (Fin an) (fmul (Fin sv)
           (fadd (Fin 1) (fmul (int_to_double (d_betrayals tm + 1)) (Fin dl)))))
         (fsub (Fin r) (d_trust tm)))))"
    by (simp only: tr1 dt1)
  from t1 va vb at ba have "\<exists>t1 a b.
      d_trust tm1 = Fin t1 \<and>
      d_trust (snd (observe_d ?tmA (Fin r) (Fin sv))) = Fin a \<and>
      d_trust (snd (observe_d tm1 (Fin r) (Fin sv))) = Fin b \<and>
      0 \<le> t1 - a \<and> t1 - a \<le> t1 - b"
    by auto
  with c1 formA okB cntB formB show ?thesis by blast
qed

theorem escalation_all_else_equal_witness:
  "observe_d (new_TrustMeter_d (Fin 1) (Fin (1 / 2)) (Fin (1 / 2)) (Fin (1 / 2)) 0) (Fin (1 / 2)) (Fin 1) = (Inr (), (new_TrustMeter_d (Fin 1) (Fin (1 / 2)) (Fin (1 / 2)) (Fin (1 / 2)) 0\<lparr>d_betrayals := 1, d_trust := Fin (5 / 8)\<rparr>)) \<and>
   flt (Fin (1 / 2)) (d_trust (new_TrustMeter_d (Fin 1) (Fin (1 / 2)) (Fin (1 / 2)) (Fin (1 / 2)) 0)) \<and>
   flt (Fin (1 / 2)) (d_trust (new_TrustMeter_d (Fin 1) (Fin (1 / 2)) (Fin (1 / 2)) (Fin (1 / 2)) 0\<lparr>d_betrayals := 1, d_trust := Fin (5 / 8)\<rparr>)) \<and>
   isfinite (observe_d_delta_t (new_TrustMeter_d (Fin 1) (Fin (1 / 2)) (Fin (1 / 2)) (Fin (1 / 2)) 0\<lparr>d_betrayals := 1, d_trust := Fin (5 / 8)\<rparr>) (Fin (1 / 2)) (Fin 1)) \<and>
   d_trust (new_TrustMeter_d (Fin 1) (Fin (1 / 2)) (Fin (1 / 2)) (Fin (1 / 2)) 0\<lparr>d_betrayals := 1, d_trust := Fin (5 / 8)\<rparr>) = Fin (5 / 8) \<and>
   d_trust (snd (observe_d ((new_TrustMeter_d (Fin 1) (Fin (1 / 2)) (Fin (1 / 2)) (Fin (1 / 2)) 0\<lparr>d_betrayals := 1, d_trust := Fin (5 / 8)\<rparr>)\<lparr>d_betrayals := d_betrayals (new_TrustMeter_d (Fin 1) (Fin (1 / 2)) (Fin (1 / 2)) (Fin (1 / 2)) 0)\<rparr>) (Fin (1 / 2)) (Fin 1))) =
     Fin (17 / 32) \<and>
   d_trust (snd (observe_d (new_TrustMeter_d (Fin 1) (Fin (1 / 2)) (Fin (1 / 2)) (Fin (1 / 2)) 0\<lparr>d_betrayals := 1, d_trust := Fin (5 / 8)\<rparr>) (Fin (1 / 2)) (Fin 1))) = Fin (1 / 2) \<and>
   (0 :: real) \<le> 5 / 8 - 17 / 32 \<and> (5 / 8 - 17 / 32 :: real) \<le> 5 / 8 - 1 / 2"
proof -
  have first: "observe_d (new_TrustMeter_d (Fin 1) (Fin (1 / 2)) (Fin (1 / 2)) (Fin (1 / 2)) 0) (Fin (1 / 2)) (Fin 1) = (Inr (), (new_TrustMeter_d (Fin 1) (Fin (1 / 2)) (Fin (1 / 2)) (Fin (1 / 2)) 0\<lparr>d_betrayals := 1, d_trust := Fin (5 / 8)\<rparr>))"
    by (simp add: observe_d_defs rd_small)
  have h: "flt (Fin (1 / 2)) (d_trust (new_TrustMeter_d (Fin 1) (Fin (1 / 2)) (Fin (1 / 2)) (Fin (1 / 2)) 0))" "flt (Fin (1 / 2)) (d_trust (new_TrustMeter_d (Fin 1) (Fin (1 / 2)) (Fin (1 / 2)) (Fin (1 / 2)) 0\<lparr>d_betrayals := 1, d_trust := Fin (5 / 8)\<rparr>))"
    "(1 / 2 :: real) \<noteq> 0" "(0 :: real) \<le> 1"
    "d_alpha_neg (new_TrustMeter_d (Fin 1) (Fin (1 / 2)) (Fin (1 / 2)) (Fin (1 / 2)) 0) = Fin (1 / 2)" "(0 :: real) \<le> 1 / 2"
    "d_delta (new_TrustMeter_d (Fin 1) (Fin (1 / 2)) (Fin (1 / 2)) (Fin (1 / 2)) 0) = Fin (1 / 2)" "(0 :: real) \<le> 1 / 2"
    "0 \<le> d_betrayals (new_TrustMeter_d (Fin 1) (Fin (1 / 2)) (Fin (1 / 2)) (Fin (1 / 2)) 0)" "d_betrayals (new_TrustMeter_d (Fin 1) (Fin (1 / 2)) (Fin (1 / 2)) (Fin (1 / 2)) 0) + 2 \<le> 2 ^ 1023"
    by (simp_all add: new_TrustMeter_d_def)
  have fin: "isfinite (observe_d_delta_t (new_TrustMeter_d (Fin 1) (Fin (1 / 2)) (Fin (1 / 2)) (Fin (1 / 2)) 0\<lparr>d_betrayals := 1, d_trust := Fin (5 / 8)\<rparr>) (Fin (1 / 2)) (Fin 1))"
    by (simp add: observe_d_defs rd_small)
  have a: "d_trust (snd (observe_d ((new_TrustMeter_d (Fin 1) (Fin (1 / 2)) (Fin (1 / 2)) (Fin (1 / 2)) 0\<lparr>d_betrayals := 1, d_trust := Fin (5 / 8)\<rparr>)\<lparr>d_betrayals := d_betrayals (new_TrustMeter_d (Fin 1) (Fin (1 / 2)) (Fin (1 / 2)) (Fin (1 / 2)) 0)\<rparr>) (Fin (1 / 2)) (Fin 1))) =
      Fin (17 / 32)"
    by (simp add: observe_d_defs rd_small)
  have b: "d_trust (snd (observe_d (new_TrustMeter_d (Fin 1) (Fin (1 / 2)) (Fin (1 / 2)) (Fin (1 / 2)) 0\<lparr>d_betrayals := 1, d_trust := Fin (5 / 8)\<rparr>) (Fin (1 / 2)) (Fin 1))) = Fin (1 / 2)"
    by (simp add: observe_d_defs rd_small)
  from escalation_all_else_equal [OF first h fin] first h(1,2) fin a b
  show ?thesis by (simp add: new_TrustMeter_d_def)
qed

section \<open>Properties of the gated strategies\<close>

lemma payoff_str:
  "payoff_to_signed_reward (str a) (str b) =
     Inr (case (a, b) of
            (C, C) \<Rightarrow> 1 | (D, C) \<Rightarrow> 1 / 2 | (D, D) \<Rightarrow> - (2 / 10) | (C, D) \<Rightarrow> - 1)"
  by (cases a; cases b) (simp_all add: payoff_to_signed_reward_def REWARD_TABLE_def str_def)

lemma payoff_str_nonzero:
  "payoff_to_signed_reward (str a) (str b) = Inr reward \<Longrightarrow> reward \<noteq> 0"
  by (cases a; cases b) (auto simp: payoff_str)

subsection \<open>Threshold gate\<close>

text \<open>
  C2. For \<open>UTMTFT\<close> and \<open>UTMWSLS\<close>, a call of \<open>strategy\<close> with an empty own history
  leaves the meter as it is; with a non-empty own history (and a non-empty history of
  the opponent, as the framework guarantees) the meter is the result of exactly one
  \<open>observe\<close> call with the reward that \<open>payoff_to_signed_reward\<close> gives for the last own
  move and the opponent's last move, at severity 1.0. In both cases the move returned
  is \<open>D\<close> when the trust after that is strictly below the threshold and the inner
  player's move otherwise.
\<close>

theorem gated_strategy_decision:
  "(history self = [] \<longrightarrow>
      UTMTFT_strategy policy self opponent =
        (Inr (if value (trust self) < threshold self then D else policy (inner self) opponent),
         self) \<and>
      UTMWSLS_strategy policy self opponent =
        (Inr (if value (trust self) < threshold self then D else policy (inner self) opponent),
         self)) \<and>
   (history self \<noteq> [] \<and> opponent \<noteq> [] \<longrightarrow>
      (\<exists>reward tm.
         payoff_to_signed_reward (str (last (history self))) (str (last opponent)) = Inr reward \<and>
         observe (trust self) reward 1 = (Inr (), tm) \<and>
         UTMTFT_strategy policy self opponent =
           (Inr (if value tm < threshold self then D else policy (inner self) opponent),
            self\<lparr>trust := tm\<rparr>) \<and>
         UTMWSLS_strategy policy self opponent =
           (Inr (if value tm < threshold self then D else policy (inner self) opponent),
            self\<lparr>trust := tm\<rparr>)))"
proof -
  have first: "history self = [] \<longrightarrow>
      UTMTFT_strategy policy self opponent =
        (Inr (if value (trust self) < threshold self then D else policy (inner self) opponent),
         self) \<and>
      UTMWSLS_strategy policy self opponent =
        (Inr (if value (trust self) < threshold self then D else policy (inner self) opponent),
         self)"
    by (simp add: UTMTFT_strategy_def UTMWSLS_strategy_def)
  have later: "\<exists>reward tm.
         payoff_to_signed_reward (str (last (history self))) (str (last opponent)) = Inr reward \<and>
         observe (trust self) reward 1 = (Inr (), tm) \<and>
         UTMTFT_strategy policy self opponent =
           (Inr (if value tm < threshold self then D else policy (inner self) opponent),
            self\<lparr>trust := tm\<rparr>) \<and>
         UTMWSLS_strategy policy self opponent =
           (Inr (if value tm < threshold self then D else policy (inner self) opponent),
            self\<lparr>trust := tm\<rparr>)"
    if h: "history self \<noteq> []" "opponent \<noteq> []"
  proof -
    obtain reward where
      r: "payoff_to_signed_reward (str (last (history self))) (str (last opponent)) = Inr reward"
      by (simp add: payoff_str)
    then have nz: "reward \<noteq> 0" by (rule payoff_str_nonzero)
    obtain tm where o: "observe (trust self) reward 1 = (Inr (), tm)"
      using nz by (simp add: observe_def)
    have t: "UTMTFT_strategy policy self opponent =
           (Inr (if value tm < threshold self then D else policy (inner self) opponent),
            self\<lparr>trust := tm\<rparr>)"
      using h by (simp add: UTMTFT_strategy_def r o)
    have w: "UTMWSLS_strategy policy self opponent =
           (Inr (if value tm < threshold self then D else policy (inner self) opponent),
            self\<lparr>trust := tm\<rparr>)"
      using h by (simp add: UTMWSLS_strategy_def r o)
    from r o t w show ?thesis by blast
  qed
  from first later show ?thesis by blast
qed

theorem gated_strategy_decision_witness:
  "history (new_UTMTFT (45 / 100) (5 / 100) (1 / 2) (6 / 10) (45 / 100)) = [] \<and>
   UTMTFT_strategy (\<lambda>k opp. C) (new_UTMTFT (45 / 100) (5 / 100) (1 / 2) (6 / 10) (45 / 100)) [] =
     (Inr C, new_UTMTFT (45 / 100) (5 / 100) (1 / 2) (6 / 10) (45 / 100)) \<and>
   history (new_UTMTFT (45 / 100) (5 / 100) (1 / 2) (6 / 10) (45 / 100)\<lparr>history := [C]\<rparr>) \<noteq> [] \<and>
   [D] \<noteq> [] \<and>
   payoff_to_signed_reward (str (last [C])) (str (last [D])) = Inr (- 1) \<and>
   fst (UTMTFT_strategy (\<lambda>k opp. C)
          (new_UTMTFT (45 / 100) (5 / 100) (1 / 2) (6 / 10) (45 / 100)\<lparr>history := [C]\<rparr>) [D]) =
     Inr D \<and>
   trust (snd (UTMTFT_strategy (\<lambda>k opp. C)
          (new_UTMTFT (45 / 100) (5 / 100) (1 / 2) (6 / 10) (45 / 100)\<lparr>history := [C]\<rparr>) [D])) =
     snd (observe (new_TrustMeter (45 / 100) (5 / 100) (1 / 2) (6 / 10)) (- 1) 1) \<and>
   fst (UTMWSLS_strategy (\<lambda>k opp. C)
          (new_UTMTFT (45 / 100) (5 / 100) (1 / 2) (6 / 10) (45 / 100)\<lparr>history := [C]\<rparr>) [D]) =
     Inr D"
  using gated_strategy_decision
      [of "new_UTMTFT (45 / 100) (5 / 100) (1 / 2) (6 / 10) (45 / 100)" "\<lambda>k opp. C" "[]"]
    gated_strategy_decision
      [of "new_UTMTFT (45 / 100) (5 / 100) (1 / 2) (6 / 10) (45 / 100)\<lparr>history := [C]\<rparr>"
          "\<lambda>k opp. C" "[D]"]
  by (auto simp: new_UTMTFT_def new_TrustMeter_def payoff_str observe_def value_def
      observe_delta_t_def observe_factor_def observe_alpha_def observe_betrayals_def)

subsection \<open>Promotion of the hybrid\<close>

lemma hybrid_step:
  assumes "UTMTFT_WSLS_strategy policy self opponent = (Inr m, self')"
  shows "promote_at self' = promote_at self \<and>
         inner self' =
           (if promote_at self < value (trust self') \<or> inner self = WinStayLoseShift
            then WinStayLoseShift else TitForTat)"
  using assms
  by (cases "inner self")
     (auto simp: UTMTFT_WSLS_strategy_def Let_def payoff_str observe_def
           split: if_splits sum.splits prod.splits)

lemma hybrid_step_history:
  assumes "UTMTFT_WSLS_strategy policy (self\<lparr>history := h\<rparr>) opponent = (Inr m, self')"
  shows "promote_at self' = promote_at self \<and>
         inner self' =
           (if promote_at self < value (trust self') \<or> inner self = WinStayLoseShift
            then WinStayLoseShift else TitForTat)"
  using hybrid_step [OF assms] by simp

lemma calls_graduated:
  "inner self = WinStayLoseShift \<Longrightarrow>
     map inner (strategy_calls policy self rounds) =
       replicate (length (strategy_calls policy self rounds)) WinStayLoseShift"
proof (induction rounds arbitrary: self)
  case Nil
  then show ?case by simp
next
  case (Cons c rounds)
  obtain h opponent where c: "c = (h, opponent)" by (cases c)
  obtain res self' where
    step: "UTMTFT_WSLS_strategy policy (self\<lparr>history := h\<rparr>) opponent = (res, self')"
    by (cases "UTMTFT_WSLS_strategy policy (self\<lparr>history := h\<rparr>) opponent")
  show ?case
  proof (cases res)
    case (Inl e)
    then show ?thesis by (simp add: c step)
  next
    case (Inr m)
    from hybrid_step_history [OF step [unfolded Inr]] Cons.prems
    have i: "inner self' = WinStayLoseShift" by simp
    from Cons.IH [OF i] i show ?thesis by (simp add: c step Inr)
  qed
qed

lemma calls_shape:
  "inner self = TitForTat \<Longrightarrow>
     map inner (strategy_calls policy self rounds) =
       replicate (length (takeWhile (\<lambda>s. \<not> promote_at self < value (trust s))
                            (strategy_calls policy self rounds))) TitForTat @
       replicate (length (dropWhile (\<lambda>s. \<not> promote_at self < value (trust s))
                            (strategy_calls policy self rounds))) WinStayLoseShift"
proof (induction rounds arbitrary: self)
  case Nil
  then show ?case by simp
next
  case (Cons c rounds)
  obtain h opponent where c: "c = (h, opponent)" by (cases c)
  obtain res self' where
    step: "UTMTFT_WSLS_strategy policy (self\<lparr>history := h\<rparr>) opponent = (res, self')"
    by (cases "UTMTFT_WSLS_strategy policy (self\<lparr>history := h\<rparr>) opponent")
  show ?case
  proof (cases res)
    case (Inl e)
    then show ?thesis by (simp add: c step)
  next
    case (Inr m)
    from hybrid_step_history [OF step [unfolded Inr]] Cons.prems
    have p: "promote_at self' = promote_at self"
      and i: "inner self' =
        (if promote_at self < value (trust self') then WinStayLoseShift else TitForTat)"
      by simp_all
    show ?thesis
    proof (cases "promote_at self < value (trust self')")
      case True
      with i have w: "inner self' = WinStayLoseShift" by simp
      from calls_graduated [OF w, of policy rounds] True w
      show ?thesis by (simp add: c step Inr)
    next
      case False
      with i have t: "inner self' = TitForTat" by simp
      from Cons.IH [OF t] False t p show ?thesis by (simp add: c step Inr)
    qed
  qed
qed

text \<open>
  C5. In a match of the hybrid that starts with the inner player \<open>TitForTat\<close> (as the
  constructor and \<open>reset\<close> leave it) and has no reset, the inner player after the
  successive \<open>strategy\<close> calls is \<open>TitForTat\<close> for every call before the first one
  in which the trust is strictly above \<open>promote_at\<close>, and \<open>WinStayLoseShift\<close> in that
  call and in every later one, whatever the trust does afterwards: one change at most,
  at the first such call, and none back. \<open>reset\<close> makes the inner player \<open>TitForTat\<close> again.
\<close>

theorem hybrid_promotes_once:
  assumes "inner self = TitForTat"
  shows "map inner (strategy_calls policy self rounds) =
           replicate (length (takeWhile (\<lambda>s. \<not> promote_at self < value (trust s))
                                (strategy_calls policy self rounds))) TitForTat @
           replicate (length (dropWhile (\<lambda>s. \<not> promote_at self < value (trust s))
                                (strategy_calls policy self rounds))) WinStayLoseShift \<and>
         inner (new_UTMTFT_WSLS th ap an d thr pr) = TitForTat \<and>
         inner (UTMTFT_WSLS_reset self') = TitForTat"
  using calls_shape [OF assms, of policy rounds]
  by (simp add: new_UTMTFT_WSLS_def UTMTFT_WSLS_reset_def)

theorem hybrid_promotes_once_witness:
  "inner (new_UTMTFT_WSLS (1 / 2) (1 / 2) (1 / 2) (1 / 2) (45 / 100) (55 / 100)) = TitForTat \<and>
   map (\<lambda>s. value (trust s)) (strategy_calls (\<lambda>k opp. C) (new_UTMTFT_WSLS (1 / 2) (1 / 2) (1 / 2) (1 / 2) (45 / 100) (55 / 100))
        [([], []), ([C], [C]), ([C, C], [C, D])]) = [1 / 2, 3 / 4, 0] \<and>
   map inner (strategy_calls (\<lambda>k opp. C) (new_UTMTFT_WSLS (1 / 2) (1 / 2) (1 / 2) (1 / 2) (45 / 100) (55 / 100))
        [([], []), ([C], [C]), ([C, C], [C, D])]) = [TitForTat, WinStayLoseShift, WinStayLoseShift] \<and>
   inner (UTMTFT_WSLS_reset (last (strategy_calls (\<lambda>k opp. C) (new_UTMTFT_WSLS (1 / 2) (1 / 2) (1 / 2) (1 / 2) (45 / 100) (55 / 100))
        [([], []), ([C], [C]), ([C, C], [C, D])]))) = TitForTat"
proof -
  have h: "inner (new_UTMTFT_WSLS (1 / 2) (1 / 2) (1 / 2) (1 / 2) (45 / 100) (55 / 100)) = TitForTat"
    by (simp add: new_UTMTFT_WSLS_def)
  have tr: "strategy_calls (\<lambda>k opp. C) (new_UTMTFT_WSLS (1 / 2) (1 / 2) (1 / 2) (1 / 2) (45 / 100) (55 / 100))
      [([], []), ([C], [C]), ([C, C], [C, D])] =
    [\<lparr>history = [],
        trust = \<lparr>theta = 1 / 2, alpha_pos = 1 / 2, alpha_neg = 1 / 2, delta = 1 / 2,
                 u_betrayals = 0, u_trust = 1 / 2\<rparr>,
        threshold = 9 / 20, inner = TitForTat, promote_at = 11 / 20\<rparr>,
     \<lparr>history = [C],
        trust = \<lparr>theta = 1 / 2, alpha_pos = 1 / 2, alpha_neg = 1 / 2, delta = 1 / 2,
                 u_betrayals = 0, u_trust = 3 / 4\<rparr>,
        threshold = 9 / 20, inner = WinStayLoseShift, promote_at = 11 / 20\<rparr>,
     \<lparr>history = [C, C],
        trust = \<lparr>theta = 1 / 2, alpha_pos = 1 / 2, alpha_neg = 1 / 2, delta = 1 / 2,
                 u_betrayals = 1, u_trust = 0\<rparr>,
        threshold = 9 / 20, inner = WinStayLoseShift, promote_at = 11 / 20\<rparr>]"
    by (simp add: new_UTMTFT_WSLS_def new_TrustMeter_def UTMTFT_WSLS_strategy_def payoff_str
        observe_def observe_delta_t_def observe_factor_def observe_alpha_def
        observe_betrayals_def value_def)
  have p: "promote_at (new_UTMTFT_WSLS (1 / 2) (1 / 2) (1 / 2) (1 / 2) (45 / 100) (55 / 100)) = 11 / 20"
    by (simp add: new_UTMTFT_WSLS_def)
  from hybrid_promotes_once [OF h, of "\<lambda>k opp. C" "[([], []), ([C], [C]), ([C, C], [C, D])]"
      "1 / 2" "1 / 2" "1 / 2" "1 / 2" "45 / 100" "55 / 100"
      "last (strategy_calls (\<lambda>k opp. C) (new_UTMTFT_WSLS (1 / 2) (1 / 2) (1 / 2) (1 / 2) (45 / 100) (55 / 100))
        [([], []), ([C], [C]), ([C, C], [C, D])])"]
  show ?thesis unfolding tr p by (simp add: value_def)
qed

end
